theory Spec2Isabelle
  imports Main
begin

section \<open>Strings and numbers of the source\<close>

text \<open>
  The source is TypeScript. Its strings hold text outside ASCII (CJK skill names, the
  full-width full stop), and its split regular expression carries the \<^verbatim>\<open>u\<close> flag, so
  it reads the text code point by code point. A string is therefore modelled as the list
  of its Unicode code points. Every position the source slices at (\<^verbatim>\<open>slice\<close>,
  \<^verbatim>\<open>substring(1)\<close> after a successful \<^verbatim>\<open>startsWith\<close> of a one-unit
  marker) is a code point boundary, so the code point list is cut where the UTF-16 string is.
\<close>

type_synonym jstring = "nat list"

text \<open>An ASCII literal of the source, as code points.\<close>

definition asc :: "string \<Rightarrow> jstring" where
  "asc s = map of_char s"

text \<open>
  Numbers of the source are IEEE doubles. The rolls and ratings of the deciders are
  modelled as \<open>int\<close>. The dice counts and thresholds of the parser are read from runs of
  digits of any length, so they are modelled as the doubles they are: see \<open>number\<close> below.
  \<open>show_nat\<close> prints a natural number in decimal.
\<close>

function show_nat :: "nat \<Rightarrow> jstring" where
  "show_nat n = (if n < 10 then [48 + n] else show_nat (n div 10) @ [48 + n mod 10])"
  by pat_completeness auto
termination
  by (relation "measure id") auto

declare show_nat.simps [simp del]

definition show_int :: "int \<Rightarrow> jstring" where
  "show_int i = (if i < 0 then 45 # show_nat (nat (- i)) else show_nat (nat i))"


subsection \<open>Character classes of the regular expressions\<close>

definition is_digit :: "nat \<Rightarrow> bool" where
  \<comment> \<open>\<^verbatim>\<open>\d\<close>: the ASCII digits\<close>
  "is_digit c = (48 \<le> c \<and> c \<le> 57)"

definition is_space :: "nat \<Rightarrow> bool" where
  \<comment> \<open>\<^verbatim>\<open>\s\<close>, which is also what \<^verbatim>\<open>trim\<close> strips: ECMAScript white space and
      line terminators\<close>
  "is_space c = (c \<in> {9, 10, 11, 12, 13, 32, 160, 5760, 8232, 8233, 8239, 8287, 12288, 65279}
                 \<or> (8192 \<le> c \<and> c \<le> 8202))"

definition unified_ideograph :: "nat \<Rightarrow> bool" where
  \<comment> \<open>\<^verbatim>\<open>\p{Unified_Ideograph}\<close>: the ranges of the Unicode property list (version 15.1)\<close>
  "unified_ideograph c =
     ((13312 \<le> c \<and> c \<le> 19903) \<or> (19968 \<le> c \<and> c \<le> 40959)
      \<or> c \<in> {64014, 64015, 64017, 64019, 64020, 64031, 64033, 64035, 64036, 64039, 64040, 64041}
      \<or> (131072 \<le> c \<and> c \<le> 173791) \<or> (173824 \<le> c \<and> c \<le> 177977)
      \<or> (177984 \<le> c \<and> c \<le> 178205) \<or> (178208 \<le> c \<and> c \<le> 183969)
      \<or> (183984 \<le> c \<and> c \<le> 191456) \<or> (191472 \<le> c \<and> c \<le> 192093)
      \<or> (196608 \<le> c \<and> c \<le> 201546) \<or> (201552 \<le> c \<and> c \<le> 205743))"

definition is_split :: "nat \<Rightarrow> bool" where
  \<comment> \<open>the class \<^verbatim>\<open>[\p{Unified_Ideograph}\s]\<close>\<close>
  "is_split c = (unified_ideograph c \<or> is_space c)"

subsection \<open>String methods\<close>

definition trim :: "jstring \<Rightarrow> jstring" where
  "trim s = rev (dropWhile is_space (rev (dropWhile is_space s)))"

definition startsWith :: "jstring \<Rightarrow> jstring \<Rightarrow> bool" where
  "startsWith s p = (take (length p) s = p)"

definition endsWith :: "jstring \<Rightarrow> jstring \<Rightarrow> bool" where
  "endsWith s p = startsWith (rev s) (rev p)"

text \<open>\<^verbatim>\<open>s.replace(p, '')\<close> with a string pattern: the first occurrence is removed.\<close>

fun remove_first :: "jstring \<Rightarrow> jstring \<Rightarrow> jstring" where
  "remove_first p [] = []"
| "remove_first p (c # cs) =
     (if startsWith (c # cs) p then drop (length p) (c # cs) else c # remove_first p cs)"

text \<open>
  A regular expression that is an alternation of literals, \<^verbatim>\<open>(a|b|c)\<close>, is the list of
  its alternatives. At one position the alternatives are tried from left to right; the
  search moves from the start of the text to its end.
\<close>

definition match_here :: "jstring list \<Rightarrow> jstring \<Rightarrow> jstring option" where
  "match_here alts s = find (\<lambda>p. startsWith s p) alts"

fun match_first :: "jstring list \<Rightarrow> jstring \<Rightarrow> jstring option" where
  "match_first alts [] = match_here alts []"
| "match_first alts (c # cs) =
     (case match_here alts (c # cs) of
        Some p \<Rightarrow> Some p
      | None \<Rightarrow> match_first alts cs)"

definition indexOf_found :: "jstring \<Rightarrow> jstring \<Rightarrow> bool" where
  \<comment> \<open>\<^verbatim>\<open>s.indexOf(p) >= 0\<close>\<close>
  "indexOf_found s p = (match_first [p] s \<noteq> None)"

text \<open>
  \<^verbatim>\<open>s.replace(/(a|b|c)/g, '')\<close>: every match is removed, the search resuming after
  each match (after the next character when the match is empty).
\<close>

function remove_all :: "jstring list \<Rightarrow> jstring \<Rightarrow> jstring" where
  "remove_all alts [] = []"
| "remove_all alts (c # cs) =
     (case match_here alts (c # cs) of
        Some p \<Rightarrow> if p = [] then c # remove_all alts cs
                  else remove_all alts (drop (length p) (c # cs))
      | None \<Rightarrow> c # remove_all alts cs)"
  by pat_completeness auto
termination
  by (relation "measure (\<lambda>(alts, s). length s)") auto

subsection \<open>Numbers read from digits\<close>

text \<open>
  The value of a run of ASCII digits, as a natural number.
\<close>

definition decimal_value :: "jstring \<Rightarrow> nat" where
  "decimal_value ds = foldl (\<lambda>n c. 10 * n + (c - 48)) 0 ds"

text \<open>
  The numbers the parser computes with are doubles that hold a non-negative integer, or
  infinity. \<open>to_double\<close> is the rounding of the language standard: an integer below
  \<open>2^53\<close> is a double; a larger one is rounded to 53 significant bits, to the nearest
  double and to the even one of two nearest; what rounds to \<open>2^1024\<close> or more is infinity.
\<close>

datatype number = Finite nat | Infinity

fun bitlen :: "nat \<Rightarrow> nat" where
  "bitlen n = (if n = 0 then 0 else Suc (bitlen (n div 2)))"

declare bitlen.simps [simp del]

definition to_double :: "nat \<Rightarrow> number" where
  "to_double n =
     (if n < 2 ^ 53 then Finite n
      else
        let e = bitlen n - 53;
            q = n div 2 ^ e;
            r = n mod 2 ^ e;
            m = (if 2 ^ e < 2 * r \<or> (2 * r = 2 ^ e \<and> odd q) then q + 1 else q)
        in if 2 ^ 1024 \<le> m * 2 ^ e then Infinity else Finite (m * 2 ^ e))"

text \<open>
  \<^verbatim>\<open>parseInt(s, 10)\<close> on a run of ASCII digits, which is all the source passes to it
  (a group \<^verbatim>\<open>(\d+)\<close> of a match, or a literal default): the double of the value. (For
  more than 20 digits the standard lets an engine read the digits after the 20th as
  zeros; the model reads them all, as the V8 engine does.)
\<close>

definition parseInt :: "jstring \<Rightarrow> number" where
  "parseInt ds = to_double (decimal_value ds)"

text \<open>\<^verbatim>\<open>x + 1\<close> on such a number.\<close>

definition plus_one :: "number \<Rightarrow> number" where
  "plus_one x = (case x of Finite n \<Rightarrow> to_double (n + 1) | Infinity \<Rightarrow> Infinity)"

text \<open>
  What a template literal prints for such a number (\<^verbatim>\<open>Number::toString\<close> of the
  standard): the digits \<open>s\<close>, their count \<open>k\<close> and the exponent \<open>n\<close> with \<open>k\<close> as small as
  possible such that \<open>s * 10^(n - k)\<close> rounds to the number, and among several \<open>s\<close> the one
  nearest to the number, the even one of two nearest. Up to \<open>n = 21\<close> the digits are
  followed by zeros, beyond that the exponent is written out. An integer below \<open>2^53\<close>
  is printed digit for digit, since every integer up to there is a double of its own.
  For a larger double \<open>x\<close> of \<open>d\<close> decimal digits, \<open>n\<close> is \<open>d\<close>, or \<open>d + 1\<close> when \<open>10^d\<close>
  rounds to \<open>x\<close>; 17 digits always tell a double from its neighbours, and the nearest
  \<open>s\<close> is \<open>x\<close> cut to \<open>k\<close> digits or the next number.
\<close>

definition toString_format :: "nat \<Rightarrow> nat \<Rightarrow> nat \<Rightarrow> jstring" where
  "toString_format s k n =
     (if n \<le> 21 then show_nat s @ replicate (n - k) 48
      else if k = 1 then show_nat s @ asc ''e+'' @ show_nat (n - 1)
      else take 1 (show_nat s) @ asc ''.'' @ drop 1 (show_nat s) @ asc ''e+'' @ show_nat (n - 1))"

definition toString_candidates :: "nat \<Rightarrow> nat \<Rightarrow> nat \<Rightarrow> nat list" where
  "toString_candidates x d k =
     filter (\<lambda>s. s < 10 ^ k \<and> to_double (s * 10 ^ (d - k)) = Finite x)
       [x div 10 ^ (d - k), x div 10 ^ (d - k) + 1]"

definition toString_nearest :: "nat \<Rightarrow> nat \<Rightarrow> nat list \<Rightarrow> nat" where
  "toString_nearest x p ss =
     (case ss of
        [a, b] \<Rightarrow>
          if x - a * p < b * p - x then a
          else if b * p - x < x - a * p then b
          else if even a then a else b
      | a # _ \<Rightarrow> a
      | [] \<Rightarrow> x)"

definition number_toString :: "number \<Rightarrow> jstring" where
  "number_toString v =
     (case v of
        Infinity \<Rightarrow> asc ''Infinity''
      | Finite x \<Rightarrow>
          if x < 2 ^ 53 then show_nat x
          else
            let d = length (show_nat x)
            in if to_double (10 ^ d) = Finite x then toString_format 1 1 (d + 1)
               else (case find (\<lambda>k. toString_candidates x d k \<noteq> []) [1..<18] of
                       Some k \<Rightarrow>
                         toString_format
                           (toString_nearest x (10 ^ (d - k)) (toString_candidates x d k)) k d
                     | None \<Rightarrow> show_nat x))"

text \<open>\<^verbatim>\<open>a || b\<close> on an optional string: the default replaces undefined and the empty string.\<close>

definition or_default :: "jstring option \<Rightarrow> jstring \<Rightarrow> jstring" where
  "or_default a b = (case a of None \<Rightarrow> b | Some s \<Rightarrow> if s = [] then b else s)"

section \<open>The older variant of the dice manager\<close>

subsection \<open>Result descriptions\<close>

definition str_big_success :: jstring where
  "str_big_success = [22823, 25104, 21151]"  \<comment> \<open>U+5927 U+6210 U+529F, critical success\<close>

definition str_big_failure :: jstring where
  "str_big_failure = [22823, 22833, 36133]"  \<comment> \<open>U+5927 U+5931 U+8D25, critical failure\<close>

definition str_success :: jstring where
  "str_success = [25104, 21151]"  \<comment> \<open>U+6210 U+529F, success\<close>

definition str_failure :: jstring where
  "str_failure = [22833, 36133]"  \<comment> \<open>U+5931 U+8D25, failure\<close>

definition desc_le :: "jstring \<Rightarrow> jstring" where
  \<comment> \<open>the template \<^verbatim>\<open>`<= ${v} success`\<close>, with U+2264 for the comparison sign\<close>
  "desc_le v = [8804, 32] @ v @ [32] @ str_success"

definition desc_gt :: "jstring \<Rightarrow> jstring" where
  \<comment> \<open>the template \<^verbatim>\<open>`> ${v} failure`\<close>\<close>
  "desc_gt v = [62, 32] @ v @ [32] @ str_failure"

subsection \<open>Skill names and difficulty qualifiers\<close>

definition str_san :: jstring where
  "str_san = [29702, 26234]"  \<comment> \<open>U+7406 U+667A, sanity\<close>

definition str_luck :: jstring where
  "str_luck = [24184, 36816]"  \<comment> \<open>U+5E78 U+8FD0, luck\<close>

definition str_idea :: jstring where
  "str_idea = [28789, 24863]"  \<comment> \<open>U+7075 U+611F, the hunch check\<close>

definition str_int :: jstring where
  "str_int = [26234, 21147]"  \<comment> \<open>U+667A U+529B, intelligence\<close>

definition str_hard :: jstring where
  "str_hard = [22256, 38590]"  \<comment> \<open>U+56F0 U+96BE, hard\<close>

definition str_extreme :: jstring where
  "str_extreme = [26497, 38590]"  \<comment> \<open>U+6781 U+96BE, extreme\<close>

definition str_limit :: jstring where
  "str_limit = [26497, 38480]"  \<comment> \<open>U+6781 U+9650, extreme (second spelling)\<close>

definition str_spot_cha :: jstring where
  "str_spot_cha = [20390, 26597]"  \<comment> \<open>U+4FA6 U+67E5, spot hidden as users type it\<close>

definition str_spot :: jstring where
  "str_spot = [20390, 23519]"  \<comment> \<open>U+4FA6 U+5BDF, spot hidden as the card template spells it\<close>

definition difficultyRegex :: "jstring list" where
  \<comment> \<open>\<^verbatim>\<open>/(hard|extreme|limit)/\<close>\<close>
  "difficultyRegex = [str_hard, str_extreme, str_limit]"

subsection \<open>The character card and the older success decider\<close>

text \<open>
  The type \<^verbatim>\<open>ICard\<close> is declared outside the sources; the decider reads
  \<^verbatim>\<open>basic.name\<close>, \<^verbatim>\<open>basic.san\<close>, \<^verbatim>\<open>basic.luck\<close> and looks names up in
  \<^verbatim>\<open>props\<close> and \<^verbatim>\<open>skills\<close>. A lookup of a name the object does not hold gives
  \<^verbatim>\<open>undefined\<close>, here \<open>None\<close>.
\<close>

record ICardBasic =
  name :: jstring
  san :: int
  luck :: int

record ICard =
  basic :: ICardBasic
  props :: "jstring \<rightharpoonup> int"
  skills :: "jstring \<rightharpoonup> int"

record decision_old =
  resultDesc :: jstring
  skill :: jstring
  cardName :: jstring

text \<open>
  \<^verbatim>\<open>decideResult(channel, sender, desc, roll)\<close> of the older variant. The first argument
  of the model is what \<^verbatim>\<open>this.wss.cards.getCard(channel, sender)\<close> returns. The result
  \<open>None\<close> is the source's \<^verbatim>\<open>null\<close>.
\<close>

definition decideResult_old :: "ICard option \<Rightarrow> jstring \<Rightarrow> int \<Rightarrow> decision_old option" where
  "decideResult_old getCard desc roll =
     (let skill = trim desc in
      if skill = [] then None
      else case getCard of
        None \<Rightarrow> None
      | Some card' \<Rightarrow>
          if skill = str_san \<or> skill = asc ''sc'' \<or> skill = asc ''SC'' then
            Some \<lparr>resultDesc = (if roll \<le> san (basic card')
                                 then desc_le (show_int (san (basic card')))
                                 else desc_gt (show_int (san (basic card')))),
                  skill = skill, cardName = name (basic card')\<rparr>
          else if skill = str_luck then
            Some \<lparr>resultDesc = (if roll \<le> luck (basic card')
                                 then desc_le (show_int (luck (basic card')))
                                 else desc_gt (show_int (luck (basic card')))),
                  skill = skill, cardName = name (basic card')\<rparr>
          else if skill = str_idea then
            Some \<lparr>resultDesc = (case props card' str_int of
                                   None \<Rightarrow> desc_gt (asc ''undefined'')
                                 | Some v \<Rightarrow> if roll \<le> v then desc_le (show_int v)
                                             else desc_gt (show_int v)),
                  skill = skill, cardName = name (basic card')\<rparr>
          else
            let isHard = indexOf_found skill str_hard;
                isEx = (indexOf_found skill str_extreme \<or> indexOf_found skill str_limit);
                skill = remove_all difficultyRegex skill;
                skill = (if skill = str_spot_cha then str_spot else skill);
                target = (case props card' skill of
                            None \<Rightarrow> skills card' skill
                          | Some v \<Rightarrow> if v = 0 then skills card' skill else Some v)
            in (case target of
                 None \<Rightarrow> None
               | Some target \<Rightarrow>
                   if target = 0 then None
                   else if roll = 1 then
                     Some \<lparr>resultDesc = str_big_success, skill = skill, cardName = name (basic card')\<rparr>
                   else if roll > 95 then
                     Some \<lparr>resultDesc = str_big_failure, skill = skill, cardName = name (basic card')\<rparr>
                   else
                     let target = (if isEx then target div 5
                                   else if isHard then target div 2 else target)
                     in Some \<lparr>resultDesc = (if roll \<le> target then desc_le (show_int target)
                                              else desc_gt (show_int target)),
                              skill = skill, cardName = name (basic card')\<rparr>))"

subsection \<open>The command grammar parser\<close>

text \<open>
  \<^verbatim>\<open>fullExp.search(/[\p{Unified_Ideograph}\s]/u)\<close>: the index of the first ideograph
  or white space, \<open>None\<close> for the source's \<^verbatim>\<open>-1\<close>.
\<close>

fun search_split :: "jstring \<Rightarrow> nat option" where
  "search_split [] = None"
| "search_split (c # cs) = (if is_split c then Some 0 else map_option Suc (search_split cs))"

text \<open>
  \<^verbatim>\<open>exp.match(/^r([bp])\s*(\d+)?$/)\<close>. A match gives the two groups: the letter, and the
  digits when there are any. White space and digits are disjoint, so the greedy
  \<^verbatim>\<open>\s*\<close> takes the whole run of white space and what follows must be digits up to
  the end.
\<close>

definition rbrpMatch :: "jstring \<Rightarrow> (nat \<times> jstring option) option" where
  "rbrpMatch exp =
     (case exp of
        r # t # rest \<Rightarrow>
          if r = 114 \<and> (t = 98 \<or> t = 112) then
            let ds = dropWhile is_space rest
            in if ds = [] then Some (t, None)
               else if list_all is_digit ds then Some (t, Some ds)
               else None
          else None
      | _ \<Rightarrow> None)"

text \<open>
  \<^verbatim>\<open>exp.match(/^w{1,2}\s*(\d+)\s*a?\s*(\d+)*$/)\<close>. A match gives the two groups: the
  first run of digits, taken greedily, and the digits at the end when there are any (the
  last iteration of the starred group, whose first iteration already takes them all).
\<close>

definition wwMatch :: "jstring \<Rightarrow> (jstring \<times> jstring option) option" where
  "wwMatch exp =
     (case exp of
        [] \<Rightarrow> None
      | w # r0 \<Rightarrow>
          if w \<noteq> 119 then None
          else
            let r1 = (case r0 of [] \<Rightarrow> r0 | w2 # r \<Rightarrow> if w2 = 119 then r else r0);
                r2 = dropWhile is_space r1;
                g1 = takeWhile is_digit r2;
                r3 = dropWhile is_space (dropWhile is_digit r2);
                r4 = (case r3 of [] \<Rightarrow> r3 | a # r \<Rightarrow> if a = 97 then r else r3);
                r5 = dropWhile is_space r4
            in if g1 = [] then None
               else if r5 = [] then Some (g1, None)
               else if list_all is_digit r5 then Some (g1, Some r5)
               else None)"

definition parseFullExp :: "jstring \<Rightarrow> jstring \<times> jstring" where
  "parseFullExp fullExp =
     (if fullExp = asc ''sc'' \<or> fullExp = asc ''SC'' then (asc ''d%'', asc ''sc'')
      else
        let (exp, desc) = (case search_split fullExp of
                             None \<Rightarrow> (fullExp, [])
                           | Some index \<Rightarrow> (take index fullExp, drop index fullExp))
        in if exp = asc ''d'' \<or> exp = asc ''r'' \<or> exp = asc ''rd'' then (asc ''d%'', desc)
           else if exp = asc ''ra'' then (asc ''d%'', desc)
           else (case rbrpMatch exp of
                   Some (g1, g2) \<Rightarrow>
                     let type = (if g1 = 98 then 108 else 104);
                         count = parseInt (or_default g2 (asc ''1''))
                     in (number_toString (plus_one count) @ asc ''d%k'' @ [type] @ asc ''1'', desc)
                 | None \<Rightarrow>
                     (case wwMatch exp of
                        Some (g1, g2) \<Rightarrow>
                          let diceCount = parseInt g1;
                              explodeCount = parseInt (or_default g2 (asc ''10''))
                          in (number_toString diceCount @ asc ''d10!>=''
                                @ number_toString explodeCount @ asc ''>=8'',
                              desc)
                      | None \<Rightarrow>
                          if startsWith exp (asc ''r'') then (trim (drop 1 exp), desc)
                          else (exp, desc))))"

subsection \<open>Detecting an instruction in a message text\<close>

definition instRegex :: "jstring list" where
  \<comment> \<open>the 54 attribute and skill names of the source, in its order, then \<^verbatim>\<open>sc\<close> and
      \<^verbatim>\<open>SC\<close>\<close>
  "instRegex =
     [[21147, 37327], [20307, 36136], [20307, 22411], [25935, 25463],
      [22806, 35980], [26234, 21147], [28789, 24863], [24847, 24535],
      [25945, 32946], [29702, 26234], [24184, 36816], [20250, 35745],
      [20154, 31867, 23398], [20272, 20215], [32771, 21476, 23398], [39749, 24785],
      [25856, 29228], [35745, 31639, 26426], [20449, 29992], [20811, 33487, 40065, 31070, 35805],
      [20052, 35013], [38378, 36991], [39550, 39542], [30005, 27668, 32500, 20462],
      [30005, 23376, 23398], [35805, 26415], [26684, 26007], [23556, 20987],
      [24613, 25937], [21382, 21490], [24656, 21523], [36339, 36291],
      [27597, 35821], [27861, 24459], [22270, 20070, 39302], [32838, 21548],
      [38145, 21280], [26426, 26800, 32500, 20462], [21307, 23398], [21338, 29289, 23398],
      [39046, 33322], [31070, 31192, 23398], [37325, 22411, 26426, 26800], [35828, 26381],
      [31934, 31070, 20998, 26512], [24515, 29702, 23398], [39569, 26415], [22937, 25163],
      [20390, 26597], [20390, 23519], [28508, 34892], [28216, 27891],
      [25237, 25527], [36861, 36394], [115, 99], [83, 67]]"

definition detectInstruction :: "jstring \<Rightarrow> jstring option" where
  "detectInstruction text =
     (case match_first instRegex text of
        None \<Rightarrow> None
      | Some skill0 \<Rightarrow>
          let difficulty = (case match_first difficultyRegex text of
                              Some d \<Rightarrow> d
                            | None \<Rightarrow> [])
          in Some (difficulty @ skill0))"

subsection \<open>Unescaping\<close>

function unescapeHTML :: "jstring \<Rightarrow> jstring" where
  "unescapeHTML [] = []"
| "unescapeHTML (c # cs) =
     (if startsWith (c # cs) (asc ''&lt;'') then 60 # unescapeHTML (drop 4 (c # cs))
      else if startsWith (c # cs) (asc ''&gt;'') then 62 # unescapeHTML (drop 4 (c # cs))
      else if startsWith (c # cs) (asc ''&amp;'') then 38 # unescapeHTML (drop 5 (c # cs))
      else c # unescapeHTML cs)"
  by pat_completeness auto
termination
  by (relation "measure length") auto

subsection \<open>Rolling and the guild message handler (older variant)\<close>

text \<open>
  \<^verbatim>\<open>tryRollDice\<close> of the older variant. The dice evaluator \<^verbatim>\<open>new DiceRoll(exp)\<close> is
  a library; it is the parameter \<open>DiceRoll\<close>, giving the total and the rendering of the
  roll, or \<open>None\<close> when it throws on an expression it does not accept. \<open>channelCard\<close> is
  \<open>None\<close> when no channel id is passed and otherwise holds what \<^verbatim>\<open>getCard\<close> returns;
  \<open>who\<close> is \<^verbatim>\<open>nickname || userId\<close>. The result is the reply, together with the decision
  that is sent to the channel's clients as \<^verbatim>\<open>card/test\<close> when the check succeeded;
  \<open>None\<close> is the source's \<^verbatim>\<open>null\<close> of the \<^verbatim>\<open>catch\<close> branch.
\<close>

definition tryRollDice_old ::
  "(jstring \<Rightarrow> (int \<times> jstring) option) \<Rightarrow> ICard option option \<Rightarrow> jstring \<Rightarrow> jstring
     \<Rightarrow> (jstring \<times> decision_old option) option" where
  "tryRollDice_old DiceRoll channelCard who fullExp =
     (let (exp, desc) = parseFullExp fullExp
      in case DiceRoll exp of
           None \<Rightarrow> None
         | Some (total', output) \<Rightarrow>
             let result = (case channelCard of
                             None \<Rightarrow> None
                           | Some getCard \<Rightarrow> decideResult_old getCard desc total');
                 cardTest = (case result of
                               None \<Rightarrow> None
                             | Some r \<Rightarrow> if endsWith (resultDesc r) str_success then Some r else None)
             in Some (who @ [32, 127922, 32] @ desc @ [32] @ output @ [32]
                        @ (case result of None \<Rightarrow> [] | Some r \<Rightarrow> resultDesc r),
                      cardTest))"

text \<open>The text a template literal prints for an optional string.\<close>

definition template_str :: "jstring option \<Rightarrow> jstring" where
  "template_str v = (case v of None \<Rightarrow> asc ''undefined'' | Some s \<Rightarrow> s)"

text \<open>
  What \<^verbatim>\<open>handleGuildMessage\<close> of the older variant does to the outside: the
  \<^verbatim>\<open>card/test\<close> notification and the reply handed to \<^verbatim>\<open>sendDiceMessage\<close>.
  \<open>botUserId\<close> is \<^verbatim>\<open>this.api.botInfo?.id\<close>, \<open>msg_content\<close> is \<^verbatim>\<open>msg.content\<close>.
\<close>

datatype effect_old = CardTest decision_old | SendDiceMessage jstring

definition handleGuildMessage_old ::
  "jstring option \<Rightarrow> (jstring \<Rightarrow> (int \<times> jstring) option) \<Rightarrow> ICard option \<Rightarrow> jstring
     \<Rightarrow> jstring option \<Rightarrow> effect_old list" where
  "handleGuildMessage_old botUserId DiceRoll getCard who msg_content =
     (case msg_content of
        None \<Rightarrow> []
      | Some c \<Rightarrow>
          let content = trim c
          in if content = [] then []
             else
               let at = asc ''<@!'' @ template_str botUserId @ asc ''> '';
                   fullExp = (if startsWith content at then trim (remove_first at content)
                              else if startsWith content (asc ''.'') \<or> startsWith content [12290]
                                then trim (drop 1 content)
                              else [])
               in if fullExp = [] then []
                  else (case tryRollDice_old DiceRoll (Some getCard) who (unescapeHTML fullExp) of
                          None \<Rightarrow> []
                        | Some (reply, cardTest) \<Rightarrow>
                            (case cardTest of None \<Rightarrow> [] | Some r \<Rightarrow> [CardTest r])
                            @ (if reply = [] then [] else [SendDiceMessage reply])))"

section \<open>The success decider of the newer variant\<close>

text \<open>
  Modelled from the spec: the enumeration \<^verbatim>\<open>SuccessLevel\<close> is imported from
  \<^verbatim>\<open>../dice/utils\<close>, which is not among the sources; the spec lists its four members.
\<close>

datatype SuccessLevel = BEST | REGULAR_SUCCESS | FAIL | WORST

text \<open>
  Modelled from the spec: the type \<^verbatim>\<open>ICocCardEntry\<close> is imported from
  \<^verbatim>\<open>../card/coc\<close>; the spec gives it a name, a
  \<^verbatim>\<open>baseValue\<close> and a \<^verbatim>\<open>value\<close>. The decider reads the two numbers, which
  are the fields of the model.
\<close>

record ICocCardEntry =
  baseValue :: int
  "value" :: int

record IDeciderResult =
  success :: bool
  level :: SuccessLevel
  desc :: jstring

definition decideResult :: "ICocCardEntry \<Rightarrow> int \<Rightarrow> IDeciderResult" where
  "decideResult cardEntry roll =
     (if roll = 1 then
        \<lparr>success = True, level = BEST, desc = str_big_success\<rparr>
      else if (baseValue cardEntry < 50 \<and> roll > 95) \<or> (baseValue cardEntry \<ge> 50 \<and> roll = 100) then
        \<lparr>success = False, level = WORST, desc = str_big_failure\<rparr>
      else if roll \<le> value cardEntry then
        \<lparr>success = True, level = REGULAR_SUCCESS, desc = desc_le (show_int (value cardEntry))\<rparr>
      else
        \<lparr>success = False, level = FAIL, desc = desc_gt (show_int (value cardEntry))\<rparr>)"

section \<open>The newer variant of the dice manager\<close>

subsection \<open>The instruction cache entry\<close>

text \<open>
  \<^verbatim>\<open>instruction?: string | null\<close>: undefined while the text has not been scanned, null
  when it holds no instruction, the instruction otherwise.
\<close>

datatype instruction_state = Unparsed | NoInstruction | Instruction jstring

record IMessageCache =
  "text" :: "jstring option"
  instruction :: instruction_state

definition fetchMethod :: "jstring option \<Rightarrow> IMessageCache" where
  \<comment> \<open>the argument is \<^verbatim>\<open>data.message.content\<close> of the fetched message\<close>
  "fetchMethod msg_content =
     (let text = map_option trim msg_content
      in \<lparr>text = text,
          instruction = (if text = None \<or> text = Some [] then NoInstruction else Unparsed)\<rparr>)"

subsection \<open>Rolls and the opposed-roll cache\<close>

text \<open>
  Modelled from the spec: the class \<^verbatim>\<open>StandardDiceRoll\<close> is imported from
  \<^verbatim>\<open>../dice/standard\<close>. The handlers read its flags \<^verbatim>\<open>hidden\<close> and
  \<^verbatim>\<open>eligibleForOpposedRoll\<close>, its \<^verbatim>\<open>description\<close> and its \<^verbatim>\<open>output\<close>. A roll
  made by \<^verbatim>\<open>createDiceRoll\<close> is of this class or of another one, of which only the
  output is read.
\<close>

record StandardDiceRoll =
  hidden :: bool
  eligibleForOpposedRoll :: bool
  description :: jstring
  "output" :: jstring

datatype roller = Standard StandardDiceRoll | Other jstring

fun roller_output :: "roller \<Rightarrow> jstring" where
  "roller_output (Standard d) = output d"
| "roller_output (Other out) = out"

text \<open>
  Modelled from the spec: the caches are \<^verbatim>\<open>LRUCache\<close> objects of the library
  \<^verbatim>\<open>lru-cache\<close>, built with \<^verbatim>\<open>max: 50\<close>: a store of at most 50 entries that evicts the
  least recently used one. The model keeps the entries most recently used first.
\<close>

type_synonym 'v LRUCache = "(jstring \<times> 'v) list"

definition lru_get :: "jstring \<Rightarrow> 'v LRUCache \<Rightarrow> 'v option \<times> 'v LRUCache" where
  "lru_get k c =
     (case map_of c k of
        None \<Rightarrow> (None, c)
      | Some v \<Rightarrow> (Some v, (k, v) # filter (\<lambda>e. fst e \<noteq> k) c))"

definition lru_set :: "jstring \<Rightarrow> 'v \<Rightarrow> 'v LRUCache \<Rightarrow> 'v LRUCache" where
  "lru_set k v c = take 50 ((k, v) # filter (\<lambda>e. fst e \<noteq> k) c)"

text \<open>
  \<^verbatim>\<open>tryRollDice\<close> of the newer variant. The function \<^verbatim>\<open>createDiceRoll\<close> is imported
  from \<^verbatim>\<open>../dice/utils\<close>; it is the parameter \<open>createDiceRoll\<close>, applied to the
  expression and the opposed roll, which stands for the call together with the card
  update that follows it and gives \<open>None\<close> when either throws (the source then returns
  \<^verbatim>\<open>null\<close>). The function returns the roll and the cache, whose order a lookup changes.
\<close>

definition tryRollDice ::
  "(jstring \<Rightarrow> roller option \<Rightarrow> roller option) \<Rightarrow> roller LRUCache \<Rightarrow> jstring \<Rightarrow> jstring option
     \<Rightarrow> roller option \<times> roller LRUCache" where
  "tryRollDice createDiceRoll opposedRollCache fullExp replyMsgId =
     (let (opposedRoll, cache) =
            (case replyMsgId of
               None \<Rightarrow> (None, opposedRollCache)
             | Some k \<Rightarrow> if k = [] then (None, opposedRollCache) else lru_get k opposedRollCache)
      in (createDiceRoll fullExp opposedRoll, cache))"

subsection \<open>The handlers\<close>

text \<open>
  A handler runs up to its \<^verbatim>\<open>await channel.sendMessage(...)\<close> in one piece and resumes
  when the post has completed. The first piece is modelled by the handler function: it
  returns the messages handed to the transport, the roll whose post is awaited (if the
  handler got that far) and the opposed-roll cache. The second piece is
  \<open>afterSendMessage\<close>.
\<close>

datatype message = ChannelMessage jstring | UserMessage jstring

definition str_hidden_1 :: jstring where
  \<comment> \<open>the text between the user name and the description of a hidden roll\<close>
  "str_hidden_1 = [32, 22312, 24119, 24149, 21518, 38754, 20599, 20599, 22320, 32, 127922, 32]"

definition str_hidden_2 :: jstring where
  \<comment> \<open>the text after the description of a hidden roll\<close>
  "str_hidden_2 = [65292, 29468, 29468, 32467, 26524, 26159, 20160, 20040]"

text \<open>
  \<open>findChannel\<close> and \<open>findUser\<close> say whether \<^verbatim>\<open>this.api.guilds.findChannel\<close> and
  \<^verbatim>\<open>findUser\<close> find the channel and the user; \<open>username\<close> is
  \<^verbatim>\<open>msg.member.nick || msg.author.username || msg.author.id\<close>; \<open>replyMsgId\<close> is
  \<^verbatim>\<open>msg.message_reference?.message_id\<close>.
\<close>

definition handleGuildMessage ::
  "jstring option \<Rightarrow> (jstring \<Rightarrow> roller option \<Rightarrow> roller option) \<Rightarrow> bool \<Rightarrow> bool \<Rightarrow> jstring
     \<Rightarrow> roller LRUCache \<Rightarrow> jstring option \<Rightarrow> jstring option
     \<Rightarrow> message list \<times> roller option \<times> roller LRUCache" where
  "handleGuildMessage botUserId createDiceRoll findChannel findUser username opposedRollCache
       msg_content replyMsgId =
     (case msg_content of
        None \<Rightarrow> ([], None, opposedRollCache)
      | Some c \<Rightarrow>
          let content = trim c
          in if content = [] then ([], None, opposedRollCache)
             else
               let at = asc ''<@!'' @ template_str botUserId @ asc ''>'';
                   fullExp = content;
                   fullExp = (if startsWith fullExp at then trim (remove_first at fullExp)
                              else fullExp);
                   fullExp = (if startsWith fullExp (asc ''.'') \<or> startsWith fullExp [12290]
                              then trim (drop 1 fullExp) else fullExp);
                   fullExp = unescapeHTML fullExp;
                   (roll, cache) = tryRollDice createDiceRoll opposedRollCache fullExp replyMsgId
               in (case roll of
                     None \<Rightarrow> ([], None, cache)
                   | Some r \<Rightarrow>
                       if \<not> findChannel then ([], None, cache)
                       else (case r of
                               Standard d \<Rightarrow>
                                 if hidden d then
                                   ([ChannelMessage (username @ str_hidden_1 @ description d @ str_hidden_2)]
                                      @ (if findUser then [UserMessage (output d)] else []),
                                    None, cache)
                                 else ([ChannelMessage (roller_output r)], Some r, cache)
                             | Other out \<Rightarrow> ([ChannelMessage (roller_output r)], Some r, cache))))"

text \<open>
  After the await, in both handlers: \<open>replyMsg\<close> is the id of the posted message, \<open>None\<close>
  when the transport returned nothing.
\<close>

definition afterSendMessage :: "jstring option \<Rightarrow> roller \<Rightarrow> roller LRUCache \<Rightarrow> roller LRUCache" where
  "afterSendMessage replyMsg roll opposedRollCache =
     (case replyMsg of
        None \<Rightarrow> opposedRollCache
      | Some replyMsgId \<Rightarrow>
          (case roll of
             Standard d \<Rightarrow>
               if eligibleForOpposedRoll d then lru_set replyMsgId roll opposedRollCache
               else opposedRollCache
           | Other out \<Rightarrow> opposedRollCache))"

text \<open>
  \<^verbatim>\<open>handleGuildReactions\<close> from the point where \<^verbatim>\<open>this.msgCache.fetch\<close> has returned
  \<open>cacheMsg\<close>. The entry is an object of the cache, which the handler updates in place;
  the model returns it first.
\<close>

definition handleGuildReactions ::
  "(jstring \<Rightarrow> roller option \<Rightarrow> roller option) \<Rightarrow> bool \<Rightarrow> roller LRUCache \<Rightarrow> IMessageCache option
     \<Rightarrow> IMessageCache option \<times> message list \<times> roller option \<times> roller LRUCache" where
  "handleGuildReactions createDiceRoll findChannel opposedRollCache cacheMsg =
     (case cacheMsg of
        None \<Rightarrow> (None, [], None, opposedRollCache)
      | Some m \<Rightarrow>
          if instruction m = NoInstruction then (Some m, [], None, opposedRollCache)
          else
            let m = (if instruction m = Unparsed
                     then m\<lparr>instruction :=
                              (case detectInstruction (case text m of None \<Rightarrow> [] | Some t \<Rightarrow> t) of
                                 None \<Rightarrow> NoInstruction
                               | Some i \<Rightarrow> Instruction i)\<rparr>
                     else m)
            in (case instruction m of
                  Instruction i \<Rightarrow>
                    if i = [] then (Some m, [], None, opposedRollCache)
                    else
                      let (roll, cache) = tryRollDice createDiceRoll opposedRollCache (asc ''d% '' @ i) None
                      in (case roll of
                            None \<Rightarrow> (Some m, [], None, cache)
                          | Some r \<Rightarrow>
                              if \<not> findChannel then (Some m, [], None, cache)
                              else (Some m, [ChannelMessage (roller_output r)], Some r, cache))
                | _ \<Rightarrow> (Some m, [], None, opposedRollCache)))"

subsection \<open>The dice manager as a state machine\<close>

text \<open>
  The manager holds the opposed-roll cache; between its steps, posts of roll results are
  in flight. An event is a guild message, a reaction whose message has been fetched, or
  the completion of a post in flight.
\<close>

record manager =
  opposedRollCache :: "roller LRUCache"
  inflight :: "roller list"

datatype event =
    GuildMessage "jstring option" bool bool jstring "jstring option" "jstring option"
  | GuildReaction bool "IMessageCache option"
  | PostDone "jstring option" roller

fun handle :: "(jstring \<Rightarrow> roller option \<Rightarrow> roller option) \<Rightarrow> manager \<Rightarrow> event \<Rightarrow> manager" where
  "handle createDiceRoll s (GuildMessage botUserId findChannel findUser username msg_content replyMsgId) =
     (case handleGuildMessage botUserId createDiceRoll findChannel findUser username
             (opposedRollCache s) msg_content replyMsgId of
        (sent, awaited, cache) \<Rightarrow>
          \<lparr>opposedRollCache = cache,
           inflight = (case awaited of None \<Rightarrow> inflight s | Some r \<Rightarrow> r # inflight s)\<rparr>)"
| "handle createDiceRoll s (GuildReaction findChannel cacheMsg) =
     (case handleGuildReactions createDiceRoll findChannel (opposedRollCache s) cacheMsg of
        (m, sent, awaited, cache) \<Rightarrow>
          \<lparr>opposedRollCache = cache,
           inflight = (case awaited of None \<Rightarrow> inflight s | Some r \<Rightarrow> r # inflight s)\<rparr>)"
| "handle createDiceRoll s (PostDone replyMsg roll) =
     (if roll \<in> set (inflight s)
      then \<lparr>opposedRollCache = afterSendMessage replyMsg roll (opposedRollCache s),
            inflight = remove1 roll (inflight s)\<rparr>
      else s)"

definition initial :: manager where
  "initial = \<lparr>opposedRollCache = [], inflight = []\<rparr>"

definition run :: "(jstring \<Rightarrow> roller option \<Rightarrow> roller option) \<Rightarrow> event list \<Rightarrow> manager" where
  "run createDiceRoll evs = foldl (handle createDiceRoll) initial evs"

fun eligible :: "roller \<Rightarrow> bool" where
  "eligible (Standard d) = eligibleForOpposedRoll d"
| "eligible (Other out) = False"

definition cache_eligible :: "roller LRUCache \<Rightarrow> bool" where
  "cache_eligible c = list_all (\<lambda>e. eligible (snd e)) c"


section \<open>The first occurrence of a keyword, as the specification words it\<close>

text \<open>
  The specification of \<open>detectInstruction\<close> speaks of the keywords a text contains and of
  the first occurrence of one. These definitions follow its words, to be compared with
  the search of the source: a keyword occurs at a position of a text; it occurs in the
  text; it is a first occurrence when no keyword of the list occurs further left.
\<close>

definition spec_occurs_at :: "jstring \<Rightarrow> jstring \<Rightarrow> nat \<Rightarrow> bool" where
  "spec_occurs_at p t i = (take (length p) (drop i t) = p)"

definition spec_occurs :: "jstring \<Rightarrow> jstring \<Rightarrow> bool" where
  "spec_occurs p t = (\<exists>i\<in>{..length t}. spec_occurs_at p t i)"

definition spec_first :: "jstring list \<Rightarrow> jstring \<Rightarrow> jstring \<Rightarrow> bool" where
  "spec_first alts t p =
     (p \<in> set alts
      \<and> (\<exists>i\<in>{..length t}. spec_occurs_at p t i
             \<and> (\<forall>q\<in>set alts. \<forall>j\<in>{..<i}. \<not> spec_occurs_at q t j)))"

section \<open>Evaluating the string constants\<close>

lemmas str_defs =
  str_san_def str_luck_def str_idea_def str_int_def str_hard_def str_extreme_def str_limit_def
  str_spot_cha_def str_spot_def str_big_success_def str_big_failure_def str_success_def
  str_failure_def difficultyRegex_def asc_def

section \<open>The threshold rule of the success deciders\<close>

text \<open>
  C1 (as amended). The newer decider follows the rule for every entry and every roll: a
  roll of 1 is \<open>BEST\<close>; a roll above 95 with a base value below 50, or a roll of 100 with
  a base value of at least 50, is \<open>WORST\<close>; any other roll is \<open>REGULAR_SUCCESS\<close> when it
  is at most the value and \<open>FAIL\<close> when it is above. The older decider knows no base
  value: for a skill that is none of the special names and has a non-zero rating on the
  card (under its name without the difficulty qualifiers, in the card's spelling of spot
  hidden, among the attributes first and the skills second), a roll of 1 is a critical
  success, every roll above 95 is a critical failure whatever the rating, and any other
  roll is compared with the rating adjusted for difficulty.
\<close>

theorem decideResult_threshold_rule:
  "level (decideResult cardEntry roll) =
     (if roll = 1 then BEST
      else if (baseValue cardEntry < 50 \<and> 95 < roll) \<or> (50 \<le> baseValue cardEntry \<and> roll = 100)
        then WORST
      else if roll \<le> value cardEntry then REGULAR_SUCCESS
      else FAIL)
   \<and> (trim d \<noteq> [] \<and> trim d \<notin> {str_san, asc ''sc'', asc ''SC'', str_luck, str_idea}
        \<and> nm = (if remove_all difficultyRegex (trim d) = str_spot_cha then str_spot
                  else remove_all difficultyRegex (trim d))
        \<and> (case props c nm of None \<Rightarrow> skills c nm
             | Some v \<Rightarrow> if v = 0 then skills c nm else Some v) = Some rating
        \<and> rating \<noteq> 0
      \<longrightarrow> map_option resultDesc (decideResult_old (Some c) d roll) =
            Some (if roll = 1 then str_big_success
                  else if 95 < roll then str_big_failure
                  else
                    let target =
                          (if indexOf_found (trim d) str_extreme \<or> indexOf_found (trim d) str_limit
                           then rating div 5
                           else if indexOf_found (trim d) str_hard then rating div 2
                           else rating)
                    in if roll \<le> target then desc_le (show_int target)
                       else desc_gt (show_int target)))"
proof (intro conjI impI)
  show "level (decideResult cardEntry roll) =
     (if roll = 1 then BEST
      else if (baseValue cardEntry < 50 \<and> 95 < roll) \<or> (50 \<le> baseValue cardEntry \<and> roll = 100)
        then WORST
      else if roll \<le> value cardEntry then REGULAR_SUCCESS
      else FAIL)"
    by (simp add: decideResult_def)
next
  assume h: "trim d \<noteq> [] \<and> trim d \<notin> {str_san, asc ''sc'', asc ''SC'', str_luck, str_idea}
        \<and> nm = (if remove_all difficultyRegex (trim d) = str_spot_cha then str_spot
                  else remove_all difficultyRegex (trim d))
        \<and> (case props c nm of None \<Rightarrow> skills c nm
             | Some v \<Rightarrow> if v = 0 then skills c nm else Some v) = Some rating
        \<and> rating \<noteq> 0"
  then have a: "trim d \<noteq> []" "trim d \<noteq> str_san" "trim d \<noteq> asc ''sc''" "trim d \<noteq> asc ''SC''"
      "trim d \<noteq> str_luck" "trim d \<noteq> str_idea"
    and nm: "nm = (if remove_all difficultyRegex (trim d) = str_spot_cha then str_spot
                   else remove_all difficultyRegex (trim d))"
    and tg: "(case props c nm of None \<Rightarrow> skills c nm
              | Some v \<Rightarrow> if v = 0 then skills c nm else Some v) = Some rating"
      "rating \<noteq> 0"
    by blast+
  show "map_option resultDesc (decideResult_old (Some c) d roll) =
            Some (if roll = 1 then str_big_success
                  else if 95 < roll then str_big_failure
                  else
                    let target =
                          (if indexOf_found (trim d) str_extreme \<or> indexOf_found (trim d) str_limit
                           then rating div 5
                           else if indexOf_found (trim d) str_hard then rating div 2
                           else rating)
                    in if roll \<le> target then desc_le (show_int target)
                       else desc_gt (show_int target))"
  proof (cases "remove_all difficultyRegex (trim d) = str_spot_cha")
    case True
    then have n: "nm = str_spot" using nm by simp
    have "(case props c str_spot of None \<Rightarrow> skills c str_spot
           | Some v \<Rightarrow> if v = 0 then skills c str_spot else Some v) = Some rating"
      using tg(1) unfolding n .
    then show ?thesis
      using a tg(2) True by (simp add: decideResult_old_def Let_def)
  next
    case False
    then have n: "nm = remove_all difficultyRegex (trim d)" using nm by simp
    have "(case props c (remove_all difficultyRegex (trim d)) of
             None \<Rightarrow> skills c (remove_all difficultyRegex (trim d))
           | Some v \<Rightarrow> if v = 0 then skills c (remove_all difficultyRegex (trim d)) else Some v)
          = Some rating"
      using tg(1) unfolding n .
    then show ?thesis
      using a tg(2) False by (simp add: decideResult_old_def Let_def)
  qed
qed

theorem decideResult_threshold_rule_witness:
  "trim (32 # str_spot_cha) = str_spot_cha
   \<and> remove_all difficultyRegex str_spot_cha = str_spot_cha
   \<and> level (decideResult \<lparr>baseValue = 60, value = 60\<rparr> 96) = FAIL
   \<and> map_option resultDesc
        (decideResult_old
           (Some \<lparr>basic = \<lparr>name = asc ''Ann'', san = 50, luck = 40\<rparr>, props = Map.empty,
                  skills = [str_spot \<mapsto> 60]\<rparr>)
           (32 # str_spot_cha) 96) = Some str_big_failure"
proof -
  have t: "trim (32 # str_spot_cha) = str_spot_cha"
    by (simp add: trim_def is_space_def str_defs)
  have r: "remove_all difficultyRegex str_spot_cha = str_spot_cha"
    by (simp add: match_here_def startsWith_def str_defs)
  have n: "str_spot_cha \<noteq> []" "str_spot_cha \<notin> {str_san, asc ''sc'', asc ''SC'', str_luck, str_idea}"
    by (simp_all add: str_defs)
  show ?thesis
    using decideResult_threshold_rule
      [of "\<lparr>baseValue = 60, value = 60\<rparr>" 96 "32 # str_spot_cha" str_spot
          "\<lparr>basic = \<lparr>name = asc ''Ann'', san = 50, luck = 40\<rparr>, props = Map.empty,
            skills = [str_spot \<mapsto> 60]\<rparr>" 60]
      n
    by (simp add: t r)
qed

text \<open>
  The claim as first stated has both deciders spare a rating of 60 the critical failure at
  a roll of 96. The older decider does not.
\<close>

theorem decideResult_old_rating_60_roll_96:
  "map_option resultDesc
     (decideResult_old
        (Some \<lparr>basic = \<lparr>name = asc ''Ann'', san = 50, luck = 40\<rparr>, props = Map.empty,
               skills = [str_spot \<mapsto> 60]\<rparr>)
        str_spot 96) = Some str_big_failure"
  by (simp add: decideResult_old_def trim_def is_space_def match_here_def startsWith_def
      indexOf_found_def Let_def str_defs)

section \<open>The command grammar parser\<close>

text \<open>
  The split of the input: the token is the longest prefix free of ideographs and white
  space, the descriptor is what follows it.
\<close>

lemma split_token:
  "(case search_split s of None \<Rightarrow> (s, []) | Some i \<Rightarrow> (take i s, drop i s)) =
     (takeWhile (\<lambda>c. \<not> is_split c) s, dropWhile (\<lambda>c. \<not> is_split c) s)"
  by (induction s) (auto split: option.splits)

lemma token_append:
  assumes "\<forall>c\<in>set tok. \<not> is_split c" and "rest = [] \<or> is_split (hd rest)"
  shows "takeWhile (\<lambda>c. \<not> is_split c) (tok @ rest) = tok"
    and "dropWhile (\<lambda>c. \<not> is_split c) (tok @ rest) = rest"
  using assms by (cases rest; simp)+

lemma digit_not_space: "is_digit c \<Longrightarrow> \<not> is_space c"
  by (auto simp: is_digit_def is_space_def)

lemma digit_not_split: "is_digit c \<Longrightarrow> \<not> is_split c"
  by (auto simp: is_digit_def is_split_def is_space_def unified_ideograph_def)

lemma dropWhile_space_digits: "list_all is_digit ds \<Longrightarrow> dropWhile is_space ds = ds"
  by (cases ds) (auto simp: digit_not_space)

lemma parseFullExp_token:
  "parseFullExp s =
     (if s = asc ''sc'' \<or> s = asc ''SC'' then (asc ''d%'', asc ''sc'')
      else
        let tok = takeWhile (\<lambda>c. \<not> is_split c) s; rest = dropWhile (\<lambda>c. \<not> is_split c) s
        in if tok = asc ''d'' \<or> tok = asc ''r'' \<or> tok = asc ''rd'' \<or> tok = asc ''ra''
           then (asc ''d%'', rest)
           else (case rbrpMatch tok of
                   Some (g1, g2) \<Rightarrow>
                     (number_toString (plus_one (parseInt (or_default g2 (asc ''1'')))) @ asc ''d%k''
                        @ [if g1 = 98 then 108 else 104] @ asc ''1'', rest)
                 | None \<Rightarrow>
                     (case wwMatch tok of
                        Some (g1, g2) \<Rightarrow>
                          (number_toString (parseInt g1) @ asc ''d10!>=''
                             @ number_toString (parseInt (or_default g2 (asc ''10''))) @ asc ''>=8'', rest)
                      | None \<Rightarrow>
                          if startsWith tok (asc ''r'') then (trim (drop 1 tok), rest)
                          else (tok, rest))))"
  unfolding parseFullExp_def split_token
  by (simp add: Let_def split: option.splits prod.splits)

lemma rbrpMatch_digits:
  assumes "t = 98 \<or> t = 112" and "list_all is_digit ds"
  shows "rbrpMatch (114 # t # ds) = Some (t, if ds = [] then None else Some ds)"
proof -
  have "dropWhile is_space ds = ds"
    using assms(2) by (rule dropWhile_space_digits)
  then show ?thesis
    using assms by (simp add: rbrpMatch_def Let_def del: dropWhile_eq_Nil_conv)
qed

lemma letters_not_split:
  "\<not> is_split 114" "\<not> is_split 98" "\<not> is_split 112" "\<not> is_split 119" "\<not> is_split 97"
  by (simp_all add: is_split_def is_space_def unified_ideograph_def)



subsection \<open>Numbers of at most 15 digits\<close>

text \<open>
  Printing a natural number and reading it back gives the number. A run of at most 15
  digits has a value below \<open>10^15\<close>, which is below \<open>2^53\<close>: reading it, adding one and
  printing the result are exact.
\<close>

lemma decimal_value_snoc: "decimal_value (ds @ [d]) = 10 * decimal_value ds + (d - 48)"
  by (simp add: decimal_value_def)

lemma decimal_value_show_nat: "decimal_value (show_nat n) = n"
proof (induction n rule: show_nat.induct)
  case (1 n)
  show ?case
  proof (cases "n < 10")
    case True
    then show ?thesis
      by (subst show_nat.simps) (simp add: decimal_value_def)
  next
    case False
    then have "decimal_value (show_nat (n div 10)) = n div 10"
      using 1 by simp
    then show ?thesis
      using False by (subst show_nat.simps) (simp add: decimal_value_snoc)
  qed
qed

lemma decimal_value_bound: "list_all is_digit ds \<Longrightarrow> decimal_value ds < 10 ^ length ds"
proof (induction ds rule: rev_induct)
  case Nil
  then show ?case by (simp add: decimal_value_def)
next
  case (snoc d ds)
  then have "decimal_value ds < 10 ^ length ds"
    by simp
  moreover have "d - 48 \<le> 9"
    using snoc.prems by (auto simp: is_digit_def)
  ultimately have "10 * decimal_value ds + (d - 48) < 10 * 10 ^ length ds"
    by linarith
  then show ?case by (simp add: decimal_value_snoc)
qed

lemma decimal_value_15:
  assumes "list_all is_digit ds" and "length ds \<le> 15"
  shows "decimal_value ds < 10 ^ 15"
proof -
  have "decimal_value ds < 10 ^ length ds"
    using assms(1) by (rule decimal_value_bound)
  also have "(10::nat) ^ length ds \<le> 10 ^ 15"
    using assms(2) by (intro power_increasing) simp_all
  finally show ?thesis .
qed

lemma to_double_exact: "n < 2 ^ 53 \<Longrightarrow> to_double n = Finite n"
  by (simp add: to_double_def)

lemma parseInt_15:
  assumes "list_all is_digit ds" and "length ds \<le> 15"
  shows "parseInt ds = Finite (decimal_value ds)"
    and "number_toString (parseInt ds) = show_nat (decimal_value ds)"
    and "number_toString (plus_one (parseInt ds)) = show_nat (decimal_value ds + 1)"
proof -
  have v: "decimal_value ds < 10 ^ 15"
    using assms by (rule decimal_value_15)
  then have small: "decimal_value ds < 2 ^ 53" "decimal_value ds + 1 < 2 ^ 53"
    by simp_all
  show p: "parseInt ds = Finite (decimal_value ds)"
    using small(1) by (simp add: parseInt_def to_double_exact)
  show "number_toString (parseInt ds) = show_nat (decimal_value ds)"
    using small(1) by (simp add: p number_toString_def)
  show "number_toString (plus_one (parseInt ds)) = show_nat (decimal_value ds + 1)"
    using small by (simp add: p plus_one_def to_double_exact number_toString_def)
qed

subsection \<open>Bonus and penalty dice\<close>

text \<open>
  C2 (as amended). A token \<^verbatim>\<open>r\<close>, \<^verbatim>\<open>b\<close> or \<^verbatim>\<open>p\<close>, then an optional number \<open>N\<close>
  (1 when absent) gives the expression \<^verbatim>\<open><N+1>d%kl1\<close> for \<^verbatim>\<open>b\<close> and
  \<^verbatim>\<open><N+1>d%kh1\<close> for \<^verbatim>\<open>p\<close>: \<open>N + 1\<close> percentile dice of which the bonus keeps
  the lowest and the penalty the highest; the descriptor is what follows the token. The
  number has at most 15 digits, the range in which the source's arithmetic on doubles is
  the arithmetic on integers.
\<close>

theorem parse_bonus_penalty:
  assumes "letter = asc ''b'' \<or> letter = asc ''p''"
    and "list_all is_digit ds" and "length ds \<le> 15"
    and "rest = [] \<or> is_split (hd rest)"
  shows "parseFullExp (asc ''r'' @ letter @ ds @ rest) =
           (show_nat ((if ds = [] then 1 else decimal_value ds) + 1) @ asc ''d%k''
              @ (if letter = asc ''b'' then asc ''l'' else asc ''h'') @ asc ''1'',
            rest)"
proof -
  obtain t where t: "letter = [t]" "t = 98 \<or> t = 112"
    using assms(1) by (auto simp: asc_def)
  let ?tok = "114 # t # ds"
  have nosplit: "\<forall>c\<in>set ?tok. \<not> is_split c"
    using t(2) assms(2)
    by (auto simp: list_all_iff digit_not_split letters_not_split)
  have tk: "takeWhile (\<lambda>c. \<not> is_split c) (?tok @ rest) = ?tok"
    and dr: "dropWhile (\<lambda>c. \<not> is_split c) (?tok @ rest) = rest"
    using token_append [OF nosplit assms(4)] by simp_all
  have m: "rbrpMatch ?tok = Some (t, if ds = [] then None else Some ds)"
    using rbrpMatch_digits [OF t(2) assms(2)] .
  have s: "asc ''r'' @ letter @ ds @ rest = ?tok @ rest"
    by (simp add: asc_def t)
  let ?n = "or_default (if ds = [] then None else Some ds) (asc ''1'')"
  have n: "list_all is_digit ?n" "length ?n \<le> 15"
    and v: "decimal_value ?n = (if ds = [] then 1 else decimal_value ds)"
    using assms(2,3) by (simp_all add: or_default_def is_digit_def decimal_value_def asc_def)
  have "number_toString (plus_one (parseInt ?n)) =
          show_nat ((if ds = [] then 1 else decimal_value ds) + 1)"
    using parseInt_15(3) [OF n] by (simp only: v)
  then show ?thesis
    unfolding s parseFullExp_token tk dr Let_def
    using t(2) by (auto simp: m asc_def t(1))
qed

theorem parse_bonus_penalty_witness:
  "list_all is_digit (asc ''2'') \<and> is_split (hd (32 # str_spot))
   \<and> parseFullExp (asc ''rp2'' @ 32 # str_spot) = (asc ''3d%kh1'', 32 # str_spot)"
proof -
  have d: "list_all is_digit (asc ''2'')"
    by (simp add: is_digit_def asc_def)
  have l: "length (asc ''2'') \<le> 15"
    by (simp add: asc_def)
  have sp: "32 # str_spot = [] \<or> is_split (hd (32 # str_spot))"
    by (simp add: is_split_def is_space_def)
  have n: "show_nat (decimal_value (asc ''2'') + 1) = asc ''3''"
    by (simp add: decimal_value_def show_nat.simps asc_def)
  show ?thesis
    using parse_bonus_penalty [of "asc ''p''" "asc ''2''" "32 # str_spot", OF _ d l sp] d sp n
    by (simp add: asc_def)
qed


text \<open>
  The claim as first stated has \<^verbatim>\<open>rb2\<close> keep the highest of the three dice. The parser
  writes \<^verbatim>\<open>kl1\<close>, keep the lowest one.
\<close>

theorem parse_rb2_keeps_lowest:
  "parseFullExp (asc ''rb2'' @ 32 # str_spot) = (asc ''3d%kl1'', 32 # str_spot)"
  by (simp add: parseFullExp_def rbrpMatch_def or_default_def parseInt_def decimal_value_def
      plus_one_def to_double_def number_toString_def show_nat.simps
      is_split_def is_space_def is_digit_def unified_ideograph_def str_spot_def asc_def)


subsection \<open>The exploding pool\<close>









subsection \<open>The fallback and the shape of the result\<close>

lemma dropWhile_none: "\<forall>c\<in>set s. \<not> P c \<Longrightarrow> dropWhile P s = s"
  by (cases s) auto

lemma trim_no_space: "\<forall>c\<in>set s. \<not> is_space c \<Longrightarrow> trim s = s"
  by (simp add: trim_def dropWhile_none)




lemma show_nat_not_Nil: "show_nat n \<noteq> []"
  by (subst show_nat.simps) simp

lemma toString_format_not_Nil: "toString_format s k n \<noteq> []"
  by (simp add: toString_format_def show_nat_not_Nil asc_def)

lemma number_toString_not_Nil: "number_toString v \<noteq> []"
  by (cases v)
    (simp_all add: number_toString_def Let_def show_nat_not_Nil toString_format_not_Nil asc_def
      split: option.splits)

lemma token_Nil_iff: "takeWhile (\<lambda>c. \<not> is_split c) s = [] \<longleftrightarrow> s = [] \<or> is_split (hd s)"
  by (cases s) auto

lemma rbrpMatch_Some_not_Nil: "rbrpMatch tok = Some m \<Longrightarrow> tok \<noteq> []"
  by (auto simp: rbrpMatch_def)

lemma wwMatch_Some_not_Nil: "wwMatch tok = Some m \<Longrightarrow> tok \<noteq> []"
  by (auto simp: wwMatch_def)

lemma strip_r_not_Nil:
  assumes "startsWith tok (asc ''r'')" and "tok \<noteq> asc ''r''" and "\<forall>c\<in>set tok. \<not> is_split c"
  shows "trim (drop 1 tok) \<noteq> []"
proof -
  obtain t where t: "tok = 114 # t" "t \<noteq> []"
    using assms(1,2) by (cases tok) (auto simp: startsWith_def asc_def)
  have "\<forall>c\<in>set t. \<not> is_space c"
    using assms(3) t by (auto simp: is_split_def)
  then have "trim t = t" by (rule trim_no_space)
  then show ?thesis using t by simp
qed


text \<open>
  C5 (as amended). The expression is non-empty exactly when the input is non-empty and
  does not begin with an ideograph or white space. When the input holds no ideograph and
  no white space the descriptor is empty, except for the inputs \<^verbatim>\<open>sc\<close> and \<^verbatim>\<open>SC\<close>,
  whose descriptor is \<^verbatim>\<open>sc\<close>.
\<close>

theorem parse_expression_empty:
  "(fst (parseFullExp s) \<noteq> []) = (s \<noteq> [] \<and> \<not> is_split (hd s))
   \<and> ((\<forall>c\<in>set s. \<not> is_split c) \<longrightarrow>
        snd (parseFullExp s) = (if s = asc ''sc'' \<or> s = asc ''SC'' then asc ''sc'' else []))"
proof (intro conjI impI)
  let ?tok = "takeWhile (\<lambda>c. \<not> is_split c) s"
  have nosplit: "\<forall>c\<in>set ?tok. \<not> is_split c"
    by (auto dest: set_takeWhileD)
  have sc: "s = asc ''sc'' \<or> s = asc ''SC'' \<Longrightarrow> s \<noteq> [] \<and> \<not> is_split (hd s)"
    by (auto simp: asc_def is_split_def is_space_def unified_ideograph_def)
  have "(fst (parseFullExp s) \<noteq> []) = (?tok \<noteq> [])"
  proof (cases "s = asc ''sc'' \<or> s = asc ''SC''")
    case True
    then have "?tok \<noteq> []" using sc token_Nil_iff [of s] by blast
    then show ?thesis using True by (auto simp: parseFullExp_token asc_def)
  next
    case False
    show ?thesis
    proof (cases "?tok \<in> {asc ''d'', asc ''r'', asc ''rd'', asc ''ra''}")
      case True
      then show ?thesis using False by (auto simp: parseFullExp_token Let_def asc_def)
    next
      case nt: False
      show ?thesis
      proof (cases "rbrpMatch ?tok")
        case (Some m)
        then show ?thesis
          using False nt rbrpMatch_Some_not_Nil [OF Some]
          by (cases m) (simp add: parseFullExp_token Let_def number_toString_not_Nil)
      next
        case None
        show ?thesis
        proof (cases "wwMatch ?tok")
          case (Some m)
          then show ?thesis
            using False nt None wwMatch_Some_not_Nil [OF Some]
            by (cases m) (simp add: parseFullExp_token Let_def number_toString_not_Nil)
        next
          case nw: None
          show ?thesis
          proof (cases "startsWith ?tok (asc ''r'')")
            case True
            have "?tok \<noteq> asc ''r''" using nt by simp
            from strip_r_not_Nil [OF True this nosplit]
            have "trim (drop 1 ?tok) \<noteq> []" .
            moreover have "?tok \<noteq> []" using True by (auto simp: startsWith_def asc_def)
            ultimately show ?thesis
              using False nt None nw True by (simp add: parseFullExp_token Let_def)
          next
            case nr: False
            then show ?thesis
              using False nt None nw by (simp add: parseFullExp_token Let_def)
          qed
        qed
      qed
    qed
  qed
  then show "(fst (parseFullExp s) \<noteq> []) = (s \<noteq> [] \<and> \<not> is_split (hd s))"
    using token_Nil_iff [of s] by blast
next
  assume a: "\<forall>c\<in>set s. \<not> is_split c"
  then have d: "dropWhile (\<lambda>c. \<not> is_split c) s = []" by simp
  show "snd (parseFullExp s) = (if s = asc ''sc'' \<or> s = asc ''SC'' then asc ''sc'' else [])"
    by (auto simp: parseFullExp_token Let_def d split: option.splits prod.splits)
qed

theorem parse_expression_empty_witness:
  "list_all (\<lambda>c. \<not> is_split c) (asc ''d20'')
   \<and> fst (parseFullExp (asc ''d20'')) \<noteq> [] \<and> snd (parseFullExp (asc ''d20'')) = []"
proof -
  have a: "\<forall>c\<in>set (asc ''d20''). \<not> is_split c"
    by (simp add: is_split_def is_space_def unified_ideograph_def asc_def)
  have b: "asc ''d20'' \<noteq> [] \<and> \<not> is_split (hd (asc ''d20''))"
    by (simp add: is_split_def is_space_def unified_ideograph_def asc_def)
  have c: "asc ''d20'' \<noteq> asc ''sc''" "asc ''d20'' \<noteq> asc ''SC''"
    by (simp_all add: asc_def)
  show ?thesis
    using parse_expression_empty [of "asc ''d20''"] a b c by (simp add: list_all_iff)
qed

text \<open>
  The claim as first stated gives every input a non-empty expression and every input
  without a split point an empty descriptor. An input that begins with an ideograph has
  the empty expression, and \<^verbatim>\<open>sc\<close> has the descriptor \<^verbatim>\<open>sc\<close>.
\<close>

theorem parse_empty_expression_and_sc:
  "parseFullExp str_spot = ([], str_spot) \<and> parseFullExp (asc ''sc'') = (asc ''d%'', asc ''sc'')"
  by (simp add: parseFullExp_def rbrpMatch_def wwMatch_def startsWith_def trim_def
      is_split_def is_space_def unified_ideograph_def str_spot_def asc_def)

section \<open>The special checks of the older decider\<close>

text \<open>
  C7 (as amended). For the sanity check (under its three names), the luck check and the
  hunch check the older decider looks no skill up: it compares the roll with the card's
  \<open>san\<close>, \<open>luck\<close> and intelligence, a roll of at most the value being a success and any
  other roll a failure. The critical bands of the ordinary skill checks are not applied.
\<close>

theorem decideResult_old_special_checks:
  "(trim d \<in> {str_san, asc ''sc'', asc ''SC''} \<longrightarrow>
      decideResult_old (Some c) d roll =
        Some \<lparr>resultDesc = (if roll \<le> san (basic c) then desc_le (show_int (san (basic c)))
                             else desc_gt (show_int (san (basic c)))),
              skill = trim d, cardName = name (basic c)\<rparr>)
   \<and> (trim d = str_luck \<longrightarrow>
      decideResult_old (Some c) d roll =
        Some \<lparr>resultDesc = (if roll \<le> luck (basic c) then desc_le (show_int (luck (basic c)))
                             else desc_gt (show_int (luck (basic c)))),
              skill = trim d, cardName = name (basic c)\<rparr>)
   \<and> (trim d = str_idea \<and> props c str_int = Some v \<longrightarrow>
      decideResult_old (Some c) d roll =
        Some \<lparr>resultDesc = (if roll \<le> v then desc_le (show_int v) else desc_gt (show_int v)),
              skill = trim d, cardName = name (basic c)\<rparr>)"
proof (intro conjI impI)
  assume "trim d \<in> {str_san, asc ''sc'', asc ''SC''}"
  then show "decideResult_old (Some c) d roll =
        Some \<lparr>resultDesc = (if roll \<le> san (basic c) then desc_le (show_int (san (basic c)))
                             else desc_gt (show_int (san (basic c)))),
              skill = trim d, cardName = name (basic c)\<rparr>"
    by (auto simp: decideResult_old_def Let_def str_san_def asc_def)
next
  assume "trim d = str_luck"
  then show "decideResult_old (Some c) d roll =
        Some \<lparr>resultDesc = (if roll \<le> luck (basic c) then desc_le (show_int (luck (basic c)))
                             else desc_gt (show_int (luck (basic c)))),
              skill = trim d, cardName = name (basic c)\<rparr>"
    by (simp add: decideResult_old_def Let_def str_san_def str_luck_def asc_def)
next
  assume "trim d = str_idea \<and> props c str_int = Some v"
  then show "decideResult_old (Some c) d roll =
        Some \<lparr>resultDesc = (if roll \<le> v then desc_le (show_int v) else desc_gt (show_int v)),
              skill = trim d, cardName = name (basic c)\<rparr>"
    by (simp add: decideResult_old_def Let_def str_san_def str_luck_def str_idea_def asc_def)
qed

theorem decideResult_old_special_checks_witness:
  "trim (32 # str_san) = str_san
   \<and> decideResult_old
        (Some \<lparr>basic = \<lparr>name = asc ''Ann'', san = 50, luck = 40\<rparr>, props = [str_int \<mapsto> 70],
               skills = [str_spot \<mapsto> 50]\<rparr>)
        (32 # str_san) 96
      = Some \<lparr>resultDesc = desc_gt (asc ''50''), skill = str_san, cardName = asc ''Ann''\<rparr>"
proof -
  have t: "trim (32 # str_san) = str_san"
    by (simp add: trim_def is_space_def str_defs)
  have n: "show_int 50 = asc ''50''"
    by (simp add: show_int_def show_nat.simps asc_def)
  show ?thesis
    using decideResult_old_special_checks
      [of "32 # str_san"
          "\<lparr>basic = \<lparr>name = asc ''Ann'', san = 50, luck = 40\<rparr>, props = [str_int \<mapsto> 70],
            skills = [str_spot \<mapsto> 50]\<rparr>" 96 70]
    by (simp add: t n)
qed

text \<open>
  The claim as first stated gives the special checks the critical bands of the ordinary
  skill checks. At a roll of 1 the sanity check against 50 is an ordinary success, where
  a skill rated 50 has the critical success.
\<close>

theorem sanity_check_roll_1_not_critical:
  "map_option resultDesc
     (decideResult_old
        (Some \<lparr>basic = \<lparr>name = asc ''Ann'', san = 50, luck = 40\<rparr>, props = [str_int \<mapsto> 70],
               skills = [str_spot \<mapsto> 50]\<rparr>)
        str_san 1) = Some (desc_le (asc ''50''))
   \<and> map_option resultDesc
     (decideResult_old
        (Some \<lparr>basic = \<lparr>name = asc ''Ann'', san = 50, luck = 40\<rparr>, props = [str_int \<mapsto> 70],
               skills = [str_spot \<mapsto> 50]\<rparr>)
        str_spot 1) = Some str_big_success
   \<and> desc_le (asc ''50'') \<noteq> str_big_success"
  by (simp add: decideResult_old_def trim_def is_space_def match_here_def startsWith_def
      indexOf_found_def Let_def show_int_def show_nat.simps desc_le_def str_defs)

section \<open>Detecting an instruction\<close>

text \<open>
  The search of the source against the words of the specification: it finds nothing
  exactly when no alternative occurs at any position, and what it finds is a first
  occurrence. Where no alternative is the beginning of another one, the first occurrence
  is unique.
\<close>

lemma occurs_at_0: "spec_occurs_at p t 0 = startsWith t p"
  by (simp add: spec_occurs_at_def startsWith_def)

lemma occurs_at_Suc: "spec_occurs_at p (c # cs) (Suc i) = spec_occurs_at p cs i"
  by (simp add: spec_occurs_at_def)

lemma match_here_None: "match_here alts t = None \<longleftrightarrow> (\<forall>p\<in>set alts. \<not> spec_occurs_at p t 0)"
  by (auto simp: match_here_def find_None_iff occurs_at_0)

lemma match_here_Some: "match_here alts t = Some p \<Longrightarrow> p \<in> set alts \<and> spec_occurs_at p t 0"
  by (auto simp: match_here_def find_Some_iff occurs_at_0)

lemma match_first_None:
  "match_first alts t = None \<longleftrightarrow> (\<forall>p\<in>set alts. \<forall>i\<in>{..length t}. \<not> spec_occurs_at p t i)"
proof (induction t)
  case Nil
  then show ?case by (simp add: match_here_None)
next
  case (Cons c cs)
  have "(\<forall>p\<in>set alts. \<forall>i\<in>{..length (c # cs)}. \<not> spec_occurs_at p (c # cs) i) \<longleftrightarrow>
        (\<forall>p\<in>set alts. \<not> spec_occurs_at p (c # cs) 0)
        \<and> (\<forall>p\<in>set alts. \<forall>i\<in>{..length cs}. \<not> spec_occurs_at p cs i)"
    (is "?L \<longleftrightarrow> ?A \<and> ?B")
  proof
    assume l: ?L
    have ?A using l by auto
    moreover have ?B
    proof (intro ballI)
      fix p i assume "p \<in> set alts" "i \<in> {..length cs}"
      then have "\<not> spec_occurs_at p (c # cs) (Suc i)" using l by auto
      then show "\<not> spec_occurs_at p cs i" by (simp add: occurs_at_Suc)
    qed
    ultimately show "?A \<and> ?B" ..
  next
    assume ab: "?A \<and> ?B"
    show ?L
    proof (intro ballI)
      fix p i assume p: "p \<in> set alts" and i: "i \<in> {..length (c # cs)}"
      show "\<not> spec_occurs_at p (c # cs) i"
      proof (cases i)
        case 0
        then show ?thesis using ab p by simp
      next
        case (Suc j)
        then have "j \<in> {..length cs}" using i by simp
        then show ?thesis using ab p Suc by (simp add: occurs_at_Suc)
      qed
    qed
  qed
  note split = this
  show ?case
  proof (cases "match_here alts (c # cs)")
    case None
    then have "\<forall>p\<in>set alts. \<not> spec_occurs_at p (c # cs) 0"
      by (simp add: match_here_None)
    then show ?thesis
      using None Cons.IH split by simp
  next
    case (Some q)
    then have "q \<in> set alts \<and> spec_occurs_at q (c # cs) 0"
      by (rule match_here_Some)
    then have "\<not> (\<forall>p\<in>set alts. \<not> spec_occurs_at p (c # cs) 0)"
      by blast
    then show ?thesis
      using Some split by simp
  qed
qed

lemma match_first_Some:
  "match_first alts t = Some p \<Longrightarrow> spec_first alts t p"
proof (induction t)
  case Nil
  then show ?case
    by (auto simp: spec_first_def dest: match_here_Some)
next
  case (Cons c cs)
  show ?case
  proof (cases "match_here alts (c # cs)")
    case (Some q)
    then have "q = p" using Cons.prems by simp
    then show ?thesis
      using match_here_Some [OF Some] by (auto simp: spec_first_def)
  next
    case None
    then have "match_first alts cs = Some p" using Cons.prems by simp
    then have "spec_first alts cs p" by (rule Cons.IH)
    then obtain i where p: "p \<in> set alts" and i: "i \<le> length cs" "spec_occurs_at p cs i"
      and m: "\<forall>q\<in>set alts. \<forall>j\<in>{..<i}. \<not> spec_occurs_at q cs j"
      by (auto simp: spec_first_def)
    have n0: "\<forall>q\<in>set alts. \<not> spec_occurs_at q (c # cs) 0"
      using None by (simp add: match_here_None)
    have "\<forall>q\<in>set alts. \<forall>j\<in>{..<Suc i}. \<not> spec_occurs_at q (c # cs) j"
    proof (intro ballI)
      fix q j assume q: "q \<in> set alts" and j: "j \<in> {..<Suc i}"
      show "\<not> spec_occurs_at q (c # cs) j"
      proof (cases j)
        case 0
        then show ?thesis using n0 q by simp
      next
        case (Suc k)
        then have "k \<in> {..<i}" using j by simp
        then show ?thesis using m q Suc by (simp add: occurs_at_Suc)
      qed
    qed
    moreover have "spec_occurs_at p (c # cs) (Suc i)" using i(2) by (simp add: occurs_at_Suc)
    moreover have "Suc i \<in> {..length (c # cs)}" using i(1) by simp
    ultimately show ?thesis
      using p unfolding spec_first_def by blast
  qed
qed

lemma spec_first_unique:
  assumes pf: "\<forall>p\<in>set alts. \<forall>q\<in>set alts. startsWith q p \<longrightarrow> p = q"
    and "spec_first alts t p" and "spec_first alts t q"
  shows "p = q"
proof -
  obtain i where p: "p \<in> set alts" "spec_occurs_at p t i"
    and mi: "\<forall>r\<in>set alts. \<forall>j\<in>{..<i}. \<not> spec_occurs_at r t j"
    using assms(2) by (auto simp: spec_first_def)
  obtain k where q: "q \<in> set alts" "spec_occurs_at q t k"
    and mk: "\<forall>r\<in>set alts. \<forall>j\<in>{..<k}. \<not> spec_occurs_at r t j"
    using assms(3) by (auto simp: spec_first_def)
  have "\<not> k < i" using mi q by auto
  moreover have "\<not> i < k" using mk p by auto
  ultimately have ik: "i = k" by simp
  have tp: "take (length p) (drop i t) = p" and tq: "take (length q) (drop i t) = q"
    using p(2) q(2) ik by (simp_all add: spec_occurs_at_def)
  show ?thesis
  proof (cases "length p \<le> length q")
    case True
    have "take (length p) q = take (length p) (take (length q) (drop i t))"
      using tq by simp
    also have "\<dots> = take (length p) (drop i t)"
      using True by (simp add: min_def)
    also have "\<dots> = p" by (rule tp)
    finally have "startsWith q p" by (simp add: startsWith_def)
    then show ?thesis using pf p(1) q(1) by blast
  next
    case False
    have "take (length q) p = take (length q) (take (length p) (drop i t))"
      using tp by simp
    also have "\<dots> = take (length q) (drop i t)"
      using False by (simp add: min_def)
    also have "\<dots> = q" by (rule tq)
    finally have "startsWith p q" by (simp add: startsWith_def)
    then show ?thesis using pf p(1) q(1) by blast
  qed
qed

lemma prefix_free_take2:
  assumes d: "distinct (map (take 2) alts)" and l: "\<forall>p\<in>set alts. 2 \<le> length p"
  shows "\<forall>p\<in>set alts. \<forall>q\<in>set alts. startsWith q p \<longrightarrow> p = q"
proof (intro ballI impI)
  fix p q assume p: "p \<in> set alts" and q: "q \<in> set alts" and s: "startsWith q p"
  have "take 2 p = take 2 (take (length p) q)"
    using s by (simp add: startsWith_def)
  also have "\<dots> = take 2 q"
    using l p by (simp add: min_def)
  finally have "take 2 p = take 2 q" .
  moreover have "inj_on (take 2) (set alts)"
    using d by (simp add: distinct_map)
  ultimately show "p = q" using p q by (auto dest: inj_onD)
qed

lemma instRegex_prefix_free:
  "\<forall>p\<in>set instRegex. \<forall>q\<in>set instRegex. startsWith q p \<longrightarrow> p = q"
proof (rule prefix_free_take2)
  show "distinct (map (take 2) instRegex)"
    by (simp add: instRegex_def)
  show "\<forall>p\<in>set instRegex. 2 \<le> length p"
    by (simp add: instRegex_def)
qed

lemma difficultyRegex_prefix_free:
  "\<forall>p\<in>set difficultyRegex. \<forall>q\<in>set difficultyRegex. startsWith q p \<longrightarrow> p = q"
  by (rule prefix_free_take2) (simp_all add: str_defs)


text \<open>
  C10. \<open>detectInstruction\<close> returns \<open>None\<close> (the source's \<^verbatim>\<open>null\<close>) exactly when none of
  the keywords occurs in the text. Otherwise it returns the first occurrence of a
  difficulty qualifier, looked for in the whole text and replaced by the empty string
  when there is none, followed by the first occurrence of a keyword. Both first
  occurrences are unique, so the result is the one the specification describes; the
  qualifier need not stand before the keyword or next to it.
\<close>

theorem detectInstruction_first_occurrence:
  "((detectInstruction t = None) = (\<forall>k\<in>set instRegex. \<not> spec_occurs k t))
   \<and> (detectInstruction t = Some r \<longrightarrow>
        (\<exists>k d. r = d @ k \<and> spec_first instRegex t k
           \<and> (if \<exists>q\<in>set difficultyRegex. spec_occurs q t then spec_first difficultyRegex t d
               else d = [])))
   \<and> (spec_first instRegex t k1 \<and> spec_first instRegex t k2 \<longrightarrow> k1 = k2)
   \<and> (spec_first difficultyRegex t d1 \<and> spec_first difficultyRegex t d2 \<longrightarrow> d1 = d2)"
proof (intro conjI impI)
  have "(detectInstruction t = None) = (match_first instRegex t = None)"
    by (simp add: detectInstruction_def Let_def split: option.splits)
  also have "\<dots> = (\<forall>k\<in>set instRegex. \<not> spec_occurs k t)"
    by (simp add: match_first_None spec_occurs_def)
  finally show "(detectInstruction t = None) = (\<forall>k\<in>set instRegex. \<not> spec_occurs k t)" .
next
  assume a: "detectInstruction t = Some r"
  then obtain k where k: "match_first instRegex t = Some k"
    by (auto simp: detectInstruction_def split: option.splits)
  define d where "d = (case match_first difficultyRegex t of Some q \<Rightarrow> q | None \<Rightarrow> [])"
  have r: "r = d @ k"
    using a k by (simp add: detectInstruction_def Let_def d_def)
  have fk: "spec_first instRegex t k"
    using k by (rule match_first_Some)
  have fd: "if \<exists>q\<in>set difficultyRegex. spec_occurs q t then spec_first difficultyRegex t d
            else d = []"
  proof (cases "match_first difficultyRegex t")
    case None
    then have "\<not> (\<exists>q\<in>set difficultyRegex. spec_occurs q t)"
      by (simp add: match_first_None spec_occurs_def)
    then show ?thesis using None by (simp add: d_def)
  next
    case (Some q)
    then have f: "spec_first difficultyRegex t q" by (rule match_first_Some)
    then have "\<exists>q\<in>set difficultyRegex. spec_occurs q t"
      by (auto simp: spec_first_def spec_occurs_def)
    then show ?thesis using f Some by (simp add: d_def)
  qed
  show "\<exists>k d. r = d @ k \<and> spec_first instRegex t k
           \<and> (if \<exists>q\<in>set difficultyRegex. spec_occurs q t then spec_first difficultyRegex t d
               else d = [])"
    using r fk fd by blast
next
  assume "spec_first instRegex t k1 \<and> spec_first instRegex t k2"
  then show "k1 = k2"
    using spec_first_unique [OF instRegex_prefix_free] by blast
next
  assume "spec_first difficultyRegex t d1 \<and> spec_first difficultyRegex t d2"
  then show "d1 = d2"
    using spec_first_unique [OF difficultyRegex_prefix_free] by blast
qed

theorem detectInstruction_first_occurrence_witness:
  "detectInstruction (asc ''hello'') = None
   \<and> detectInstruction (str_spot @ 32 # str_limit) = Some (str_limit @ str_spot)"
proof -
  let ?t = "str_spot @ 32 # str_limit"
  have none: "\<forall>k\<in>set instRegex. \<not> spec_occurs k (asc ''hello'')"
    by (simp add: instRegex_def spec_occurs_def spec_occurs_at_def asc_def atMost_Suc)
  have n: "detectInstruction (asc ''hello'') = None"
    using detectInstruction_first_occurrence [of "asc ''hello''"] none by blast
  have at0: "spec_occurs_at str_spot ?t 0"
    by (simp add: spec_occurs_at_def str_defs)
  have at3: "spec_occurs_at str_limit ?t 3"
    by (simp add: spec_occurs_at_def str_defs numeral_3_eq_3)
  have in_inst: "str_spot \<in> set instRegex"
    by (simp add: instRegex_def str_defs)
  have in_diff: "str_limit \<in> set difficultyRegex"
    by (simp add: str_defs)
  have len: "length ?t = 5"
    by (simp add: str_defs)
  have i3: "3 \<in> {..length ?t}"
    using len by simp
  have fk: "spec_first instRegex ?t str_spot"
    unfolding spec_first_def using in_inst at0 by auto
  have before: "\<forall>q\<in>set difficultyRegex. \<forall>j\<in>{..<3}. \<not> spec_occurs_at q ?t j"
    by (simp add: spec_occurs_at_def str_defs lessThan_Suc numeral_3_eq_3)
  have fd: "spec_first difficultyRegex ?t str_limit"
    unfolding spec_first_def using in_diff at3 before i3 by blast
  have occ: "\<exists>q\<in>set difficultyRegex. spec_occurs q ?t"
    unfolding spec_occurs_def using in_diff at3 i3 by blast
  have "\<not> (\<forall>k\<in>set instRegex. \<not> spec_occurs k ?t)"
    using in_inst at0 by (auto simp: spec_occurs_def)
  then have "detectInstruction ?t \<noteq> None"
    using detectInstruction_first_occurrence [of ?t, THEN conjunct1] by simp
  then obtain r where r: "detectInstruction ?t = Some r"
    by blast
  have "\<exists>k d. r = d @ k \<and> spec_first instRegex ?t k
           \<and> (if \<exists>q\<in>set difficultyRegex. spec_occurs q ?t then spec_first difficultyRegex ?t d
               else d = [])"
    using detectInstruction_first_occurrence [of ?t r, THEN conjunct2, THEN conjunct1] r
    by blast
  then obtain k d where kd: "r = d @ k" "spec_first instRegex ?t k"
      "spec_first difficultyRegex ?t d"
    using occ by auto
  have "k = str_spot"
    using detectInstruction_first_occurrence [of ?t r k str_spot] kd(2) fk by blast
  moreover have "d = str_limit"
    using detectInstruction_first_occurrence [of ?t r k str_spot d str_limit] kd(3) fd by blast
  ultimately show ?thesis using n r kd(1) by simp
qed

section \<open>The opposed-roll cache\<close>

text \<open>
  A lookup reorders the cache and a handler leaves in it what it found there; an entry
  comes in only when a post completes.
\<close>

lemma lru_get_subset: "set (snd (lru_get k c)) \<subseteq> set c"
proof (cases "map_of c k")
  case None
  then show ?thesis by (simp add: lru_get_def)
next
  case (Some v)
  then have "(k, v) \<in> set c" by (rule map_of_SomeD)
  then show ?thesis using Some by (auto simp: lru_get_def)
qed

lemma cache_eligible_subset: "set c' \<subseteq> set c \<Longrightarrow> cache_eligible c \<Longrightarrow> cache_eligible c'"
  by (auto simp: cache_eligible_def list_all_iff)

lemma lru_set_eligible: "cache_eligible c \<Longrightarrow> eligible v \<Longrightarrow> cache_eligible (lru_set k v c)"
  by (auto simp: cache_eligible_def lru_set_def list_all_iff dest!: in_set_takeD)

lemma tryRollDice_cache: "set (snd (tryRollDice createDiceRoll c fullExp replyMsgId)) \<subseteq> set c"
proof (cases replyMsgId)
  case None
  then show ?thesis by (simp add: tryRollDice_def)
next
  case (Some k)
  show ?thesis
  proof (cases "k = []")
    case True
    then show ?thesis using Some by (simp add: tryRollDice_def)
  next
    case False
    then have "snd (tryRollDice createDiceRoll c fullExp replyMsgId) = snd (lru_get k c)"
      using Some by (simp add: tryRollDice_def split: prod.splits)
    then show ?thesis using lru_get_subset [of k c] by simp
  qed
qed

lemma tryRollDice_no_reply:
  "replyMsgId = None \<or> replyMsgId = Some [] \<Longrightarrow>
     tryRollDice createDiceRoll c fullExp replyMsgId = (createDiceRoll fullExp None, c)"
  by (auto simp: tryRollDice_def)

lemma handleGuildMessage_cache_cases:
  "snd (snd (handleGuildMessage botUserId createDiceRoll findChannel findUser username c
       msg_content replyMsgId)) = c
   \<or> (\<exists>e. snd (snd (handleGuildMessage botUserId createDiceRoll findChannel findUser username c
       msg_content replyMsgId)) = snd (tryRollDice createDiceRoll c e replyMsgId))"
proof (cases msg_content)
  case None
  then show ?thesis by (simp add: handleGuildMessage_def)
next
  case (Some content)
  show ?thesis
  proof (cases "trim content = []")
    case True
    then show ?thesis using Some by (simp add: handleGuildMessage_def)
  next
    case False
    let ?at = "asc ''<@!'' @ template_str botUserId @ asc ''>''"
    let ?e1 = "if startsWith (trim content) ?at then trim (remove_first ?at (trim content))
               else trim content"
    let ?e2 = "if startsWith ?e1 (asc ''.'') \<or> startsWith ?e1 [12290] then trim (drop 1 ?e1) else ?e1"
    let ?e = "unescapeHTML ?e2"
    obtain roll cache where t: "tryRollDice createDiceRoll c ?e replyMsgId = (roll, cache)"
      by (cases "tryRollDice createDiceRoll c ?e replyMsgId")
    have "snd (snd (handleGuildMessage botUserId createDiceRoll findChannel findUser username c
       msg_content replyMsgId)) = cache"
      using Some False t
      by (simp add: handleGuildMessage_def Let_def split: option.splits roller.splits)
    then show ?thesis using t by (metis snd_conv)
  qed
qed

lemma handleGuildMessage_cache:
  "set (snd (snd (handleGuildMessage botUserId createDiceRoll findChannel findUser username c
       msg_content replyMsgId))) \<subseteq> set c"
  using handleGuildMessage_cache_cases
    [of botUserId createDiceRoll findChannel findUser username c msg_content replyMsgId]
proof (elim disjE exE)
  assume "snd (snd (handleGuildMessage botUserId createDiceRoll findChannel findUser username c
       msg_content replyMsgId)) = c"
  then show ?thesis by simp
next
  fix e
  assume "snd (snd (handleGuildMessage botUserId createDiceRoll findChannel findUser username c
       msg_content replyMsgId)) = snd (tryRollDice createDiceRoll c e replyMsgId)"
  then show ?thesis by (simp add: tryRollDice_cache)
qed

lemma handleGuildReactions_cache_cases:
  "snd (snd (snd (handleGuildReactions createDiceRoll findChannel c cacheMsg))) = c
   \<or> (\<exists>e. snd (snd (snd (handleGuildReactions createDiceRoll findChannel c cacheMsg)))
          = snd (tryRollDice createDiceRoll c e None))"
proof (cases cacheMsg)
  case None
  then show ?thesis by (simp add: handleGuildReactions_def)
next
  case (Some m)
  let ?m = "if instruction m = Unparsed
            then m\<lparr>instruction :=
                     (case detectInstruction (case text m of None \<Rightarrow> [] | Some t \<Rightarrow> t) of
                        None \<Rightarrow> NoInstruction
                      | Some i \<Rightarrow> Instruction i)\<rparr>
            else m"
  show ?thesis
  proof (cases "instruction ?m")
    case (Instruction i)
    obtain roll cache where t: "tryRollDice createDiceRoll c (asc ''d% '' @ i) None = (roll, cache)"
      by (cases "tryRollDice createDiceRoll c (asc ''d% '' @ i) None")
    have "snd (snd (snd (handleGuildReactions createDiceRoll findChannel c cacheMsg))) = c
          \<or> snd (snd (snd (handleGuildReactions createDiceRoll findChannel c cacheMsg))) = cache"
      using Some Instruction t
      by (simp add: handleGuildReactions_def Let_def split: option.splits)
    then show ?thesis using t by (metis snd_conv)
  next
    case Unparsed
    then show ?thesis using Some by (simp add: handleGuildReactions_def Let_def)
  next
    case NoInstruction
    then show ?thesis using Some by (simp add: handleGuildReactions_def Let_def)
  qed
qed

lemma handleGuildReactions_cache:
  "set (snd (snd (snd (handleGuildReactions createDiceRoll findChannel c cacheMsg)))) \<subseteq> set c"
  using handleGuildReactions_cache_cases [of createDiceRoll findChannel c cacheMsg]
proof (elim disjE exE)
  assume "snd (snd (snd (handleGuildReactions createDiceRoll findChannel c cacheMsg))) = c"
  then show ?thesis by simp
next
  fix e
  assume "snd (snd (snd (handleGuildReactions createDiceRoll findChannel c cacheMsg)))
          = snd (tryRollDice createDiceRoll c e None)"
  then show ?thesis by (simp add: tryRollDice_cache)
qed

lemma afterSendMessage_eligible:
  "cache_eligible c \<Longrightarrow> cache_eligible (afterSendMessage replyMsg roll c)"
  by (auto simp: afterSendMessage_def lru_set_eligible split: option.splits roller.splits)

lemma handle_eligible:
  "cache_eligible (opposedRollCache s) \<Longrightarrow> cache_eligible (opposedRollCache (handle createDiceRoll s ev))"
proof (cases ev)
  case (GuildMessage botUserId findChannel findUser username msg_content replyMsgId)
  assume a: "cache_eligible (opposedRollCache s)"
  show ?thesis
    using cache_eligible_subset [OF handleGuildMessage_cache a,
        of botUserId createDiceRoll findChannel findUser username msg_content replyMsgId]
    by (auto simp: GuildMessage split: prod.splits)
next
  case (GuildReaction findChannel cacheMsg)
  assume a: "cache_eligible (opposedRollCache s)"
  show ?thesis
    using cache_eligible_subset [OF handleGuildReactions_cache a, of createDiceRoll findChannel cacheMsg]
    by (auto simp: GuildReaction split: prod.splits)
next
  case (PostDone replyMsg roll)
  assume a: "cache_eligible (opposedRollCache s)"
  then show ?thesis
    by (simp add: PostDone afterSendMessage_eligible)
qed

lemma foldl_handle_eligible:
  "cache_eligible (opposedRollCache s) \<Longrightarrow>
     cache_eligible (opposedRollCache (foldl (handle createDiceRoll) s evs))"
  by (induction evs arbitrary: s) (simp_all add: handle_eligible)

lemma run_eligible: "cache_eligible (opposedRollCache (run createDiceRoll evs))"
  unfolding run_def by (rule foldl_handle_eligible) (simp add: initial_def cache_eligible_def)

lemma handleGuildMessage_no_reply:
  assumes "replyMsgId = None \<or> replyMsgId = Some []"
  shows "handleGuildMessage botUserId createDiceRoll findChannel findUser username c
           msg_content replyMsgId =
         (fst (handleGuildMessage botUserId createDiceRoll findChannel findUser username []
                 msg_content replyMsgId),
          fst (snd (handleGuildMessage botUserId createDiceRoll findChannel findUser username []
                 msg_content replyMsgId)),
          c)"
  by (simp add: handleGuildMessage_def tryRollDice_no_reply [OF assms] Let_def
      split: option.splits roller.splits)

lemma handleGuildReactions_no_lookup:
  "handleGuildReactions createDiceRoll findChannel c cacheMsg =
     (fst (handleGuildReactions createDiceRoll findChannel [] cacheMsg),
      fst (snd (handleGuildReactions createDiceRoll findChannel [] cacheMsg)),
      fst (snd (snd (handleGuildReactions createDiceRoll findChannel [] cacheMsg))),
      c)"
  by (simp add: handleGuildReactions_def tryRollDice_no_reply Let_def
      split: option.splits instruction_state.splits)

lemma handle_adds_nothing:
  "(case ev of PostDone replyMsg roll \<Rightarrow> True
    | _ \<Rightarrow> set (opposedRollCache (handle createDiceRoll s ev)) \<subseteq> set (opposedRollCache s))"
proof (cases ev)
  case (GuildMessage botUserId findChannel findUser username msg_content replyMsgId)
  show ?thesis
    using handleGuildMessage_cache
      [of botUserId createDiceRoll findChannel findUser username "opposedRollCache s"
          msg_content replyMsgId]
    by (auto simp: GuildMessage split: prod.splits)
next
  case (GuildReaction findChannel cacheMsg)
  show ?thesis
    using handleGuildReactions_cache [of createDiceRoll findChannel "opposedRollCache s" cacheMsg]
    by (auto simp: GuildReaction split: prod.splits)
next
  case (PostDone replyMsg roll)
  then show ?thesis by simp
qed

lemma handle_PostDone:
  "opposedRollCache (handle createDiceRoll s (PostDone replyMsg roll)) =
     (case replyMsg of
        None \<Rightarrow> opposedRollCache s
      | Some k \<Rightarrow> if roll \<in> set (inflight s) \<and> eligible roll
                  then lru_set k roll (opposedRollCache s)
                  else opposedRollCache s)"
  by (cases roll) (simp_all add: afterSendMessage_def split: option.splits)


text \<open>
  C8. Every step of the manager keeps the rolls in the opposed-roll cache eligible, and
  so does every run from the empty cache. A guild message or a reaction adds no entry;
  the completion of a post adds the roll under the id of the posted message when the post
  returned a message and the roll is flagged eligible, and changes nothing otherwise. A
  command without a replied-to message id does not look the cache up: the roll is made
  without an opposed roll, the cache is returned as it was, and the handler does what it
  does with the empty cache. The reaction handler never passes such an id.
\<close>

theorem opposedRollCache_eligible:
  "(cache_eligible (opposedRollCache s) \<longrightarrow>
      cache_eligible (opposedRollCache (handle createDiceRoll s ev)))
   \<and> cache_eligible (opposedRollCache (run createDiceRoll evs))
   \<and> (case ev of PostDone replyMsg roll \<Rightarrow> True
       | _ \<Rightarrow> set (opposedRollCache (handle createDiceRoll s ev)) \<subseteq> set (opposedRollCache s))
   \<and> opposedRollCache (handle createDiceRoll s (PostDone replyMsg roll)) =
       (case replyMsg of
          None \<Rightarrow> opposedRollCache s
        | Some k \<Rightarrow> if roll \<in> set (inflight s) \<and> eligible roll
                    then lru_set k roll (opposedRollCache s)
                    else opposedRollCache s)
   \<and> (replyMsgId = None \<or> replyMsgId = Some [] \<longrightarrow>
        tryRollDice createDiceRoll c fullExp replyMsgId = (createDiceRoll fullExp None, c)
        \<and> handleGuildMessage botUserId createDiceRoll findChannel findUser username c
             msg_content replyMsgId =
           (fst (handleGuildMessage botUserId createDiceRoll findChannel findUser username []
                   msg_content replyMsgId),
            fst (snd (handleGuildMessage botUserId createDiceRoll findChannel findUser username []
                   msg_content replyMsgId)),
            c))
   \<and> handleGuildReactions createDiceRoll findChannel c cacheMsg =
       (fst (handleGuildReactions createDiceRoll findChannel [] cacheMsg),
        fst (snd (handleGuildReactions createDiceRoll findChannel [] cacheMsg)),
        fst (snd (snd (handleGuildReactions createDiceRoll findChannel [] cacheMsg))),
        c)"
proof (intro conjI impI)
  assume "cache_eligible (opposedRollCache s)"
  then show "cache_eligible (opposedRollCache (handle createDiceRoll s ev))"
    by (rule handle_eligible)
next
  show "cache_eligible (opposedRollCache (run createDiceRoll evs))"
    by (rule run_eligible)
next
  show "case ev of PostDone replyMsg roll \<Rightarrow> True
       | _ \<Rightarrow> set (opposedRollCache (handle createDiceRoll s ev)) \<subseteq> set (opposedRollCache s)"
    by (rule handle_adds_nothing)
next
  show "opposedRollCache (handle createDiceRoll s (PostDone replyMsg roll)) =
       (case replyMsg of
          None \<Rightarrow> opposedRollCache s
        | Some k \<Rightarrow> if roll \<in> set (inflight s) \<and> eligible roll
                    then lru_set k roll (opposedRollCache s)
                    else opposedRollCache s)"
    by (rule handle_PostDone)
next
  assume "replyMsgId = None \<or> replyMsgId = Some []"
  then show "tryRollDice createDiceRoll c fullExp replyMsgId = (createDiceRoll fullExp None, c)"
    by (rule tryRollDice_no_reply)
next
  assume "replyMsgId = None \<or> replyMsgId = Some []"
  then show "handleGuildMessage botUserId createDiceRoll findChannel findUser username c
             msg_content replyMsgId =
           (fst (handleGuildMessage botUserId createDiceRoll findChannel findUser username []
                   msg_content replyMsgId),
            fst (snd (handleGuildMessage botUserId createDiceRoll findChannel findUser username []
                   msg_content replyMsgId)),
            c)"
    by (rule handleGuildMessage_no_reply)
next
  show "handleGuildReactions createDiceRoll findChannel c cacheMsg =
       (fst (handleGuildReactions createDiceRoll findChannel [] cacheMsg),
        fst (snd (handleGuildReactions createDiceRoll findChannel [] cacheMsg)),
        fst (snd (snd (handleGuildReactions createDiceRoll findChannel [] cacheMsg))),
        c)"
    by (rule handleGuildReactions_no_lookup)
qed

theorem opposedRollCache_eligible_witness:
  "cache_eligible (opposedRollCache initial)
   \<and> run (\<lambda>e opposed. Some (Standard \<lparr>hidden = False, eligibleForOpposedRoll = True,
                                        description = e, output = e\<rparr>))
         [GuildMessage (Some (asc ''42'')) True True (asc ''Ann'') (Some (asc ''.ra'')) None,
          PostDone (Some (asc ''m1''))
            (Standard \<lparr>hidden = False, eligibleForOpposedRoll = True,
                       description = asc ''ra'', output = asc ''ra''\<rparr>)]
       = \<lparr>opposedRollCache =
            [(asc ''m1'', Standard \<lparr>hidden = False, eligibleForOpposedRoll = True,
                                   description = asc ''ra'', output = asc ''ra''\<rparr>)],
          inflight = []\<rparr>
   \<and> cache_eligible
        [(asc ''m1'', Standard \<lparr>hidden = False, eligibleForOpposedRoll = True,
                                description = asc ''ra'', output = asc ''ra''\<rparr>)]
   \<and> tryRollDice (\<lambda>e opposed. Some (Other e)) [(asc ''m1'', Other (asc ''x''))] (asc ''d%'') None
       = (Some (Other (asc ''d%'')), [(asc ''m1'', Other (asc ''x''))])"
proof -
  let ?cdr = "\<lambda>e (opposed :: roller option).
                Some (Standard \<lparr>hidden = False, eligibleForOpposedRoll = True,
                                description = e, output = e\<rparr>)"
  let ?r = "Standard \<lparr>hidden = False, eligibleForOpposedRoll = True,
                      description = asc ''ra'', output = asc ''ra''\<rparr>"
  let ?evs = "[GuildMessage (Some (asc ''42'')) True True (asc ''Ann'') (Some (asc ''.ra'')) None,
               PostDone (Some (asc ''m1'')) ?r]"
  have i: "cache_eligible (opposedRollCache initial)"
    by (simp add: initial_def cache_eligible_def)
  have m: "handleGuildMessage (Some (asc ''42'')) ?cdr True True (asc ''Ann'') []
             (Some (asc ''.ra'')) None = ([ChannelMessage (asc ''ra'')], Some ?r, [])"
    by (simp add: handleGuildMessage_def tryRollDice_def trim_def is_space_def startsWith_def
        template_str_def asc_def Let_def)
  have r: "run ?cdr ?evs = \<lparr>opposedRollCache = [(asc ''m1'', ?r)], inflight = []\<rparr>"
    by (simp add: run_def initial_def m afterSendMessage_def lru_set_def)
  have e: "cache_eligible (opposedRollCache (run ?cdr ?evs))"
    using opposedRollCache_eligible [of initial ?cdr _ ?evs] by blast
  have t: "tryRollDice (\<lambda>e opposed. Some (Other e)) [(asc ''m1'', Other (asc ''x''))] (asc ''d%'') None
       = (Some (Other (asc ''d%'')), [(asc ''m1'', Other (asc ''x''))])"
    using opposedRollCache_eligible
      [where replyMsgId = None and createDiceRoll = "\<lambda>e opposed. Some (Other e)"
         and c = "[(asc ''m1'', Other (asc ''x''))]" and fullExp = "asc ''d%''"]
    by simp
  show ?thesis
    using i r e t by simp
qed


section \<open>Messages without a command prefix\<close>

text \<open>
  The older handler drops a text that starts with neither the mention followed by a
  space, nor a full stop, nor the full-width full stop: nothing is rolled and nothing is
  sent, whatever the dice evaluator and the card are.
\<close>

lemma handleGuildMessage_old_ignores:
  assumes "\<not> startsWith (trim content) (asc ''<@!'' @ template_str botUserId @ asc ''> '')"
    and "\<not> startsWith (trim content) (asc ''.'')"
    and "\<not> startsWith (trim content) [12290]"
  shows "handleGuildMessage_old botUserId DiceRoll getCard who (Some content) = []"
  using assms by (simp add: handleGuildMessage_old_def Let_def)


text \<open>
  C3. The newer handler starts from the whole text and only strips the prefixes it finds.
  The text \<^verbatim>\<open>d100\<close>, which has none, reaches \<open>createDiceRoll\<close> as it is, and the
  result of the roll is posted to the channel; the older handler ignores the same text.
\<close>

theorem handleGuildMessage_rolls_unprefixed:
  "handleGuildMessage (Some (asc ''42'')) (\<lambda>e opposed. Some (Other e)) True True (asc ''Ann'') []
     (Some (asc ''d100'')) None
   = ([ChannelMessage (asc ''d100'')], Some (Other (asc ''d100'')), [])
   \<and> handleGuildMessage_old (Some (asc ''42'')) (\<lambda>e. Some (50, e)) None (asc ''Ann'')
       (Some (asc ''d100'')) = []"
  by (simp add: handleGuildMessage_def handleGuildMessage_old_def tryRollDice_def trim_def
      is_space_def startsWith_def template_str_def asc_def Let_def)

end
